theory Spec2Isabelle
  imports Complex_Main "HOL-Library.Word" "HOL-Library.AList"
begin

unbundle bit_operations_syntax

section \<open>Strings, buffers and plain objects\<close>

text \<open>
  Header names, header values, URLs and host names are \<^typ>\<open>string\<close>: a character is a
  code unit below 256, which is how Node hands over the bytes of an HTTP head, so
  \<^const>\<open>length\<close> is JavaScript's \<open>.length\<close> on them and counts bytes. A \<open>Buffer\<close> is a
  list of bytes. Decoded body text is a list of UTF-16 code units, which is what a
  JavaScript string holds once \<open>iconv.decode\<close> has produced it.
\<close>

type_synonym Buffer = "8 word list"
type_synonym jsstring = "16 word list"

text \<open>
  A plain JavaScript object with string keys: its own properties in insertion order.
  \<open>o[k] = v\<close> is \<^const>\<open>AList.update\<close> (overwrite in place, else append), \<open>delete o[k]\<close> is
  \<^const>\<open>AList.delete\<close>, \<open>Object.keys\<close> and \<open>for ... in\<close> are \<open>map fst\<close>.
\<close>

type_synonym 'v obj = "(string \<times> 'v) list"

text \<open>
  \<open>String.prototype.toLowerCase\<close> on code units below 256: the letters \<open>A\<close> to \<open>Z\<close> and
  the capital letters of Latin-1 (C0 to DE without the multiplication sign D7) move up
  by 32, every other character stays.
\<close>

definition upperCaseChars :: "char list" where
  "upperCaseChars =
     ''ABCDEFGHIJKLMNOPQRSTUVWXYZ'' @
     [CHR 0xC0, CHR 0xC1, CHR 0xC2, CHR 0xC3, CHR 0xC4, CHR 0xC5, CHR 0xC6, CHR 0xC7,
     CHR 0xC8, CHR 0xC9, CHR 0xCA, CHR 0xCB, CHR 0xCC, CHR 0xCD, CHR 0xCE, CHR 0xCF,
     CHR 0xD0, CHR 0xD1, CHR 0xD2, CHR 0xD3, CHR 0xD4, CHR 0xD5, CHR 0xD6, CHR 0xD8,
     CHR 0xD9, CHR 0xDA, CHR 0xDB, CHR 0xDC, CHR 0xDD, CHR 0xDE]"

definition lowerCaseChars :: "char list" where
  "lowerCaseChars =
     ''abcdefghijklmnopqrstuvwxyz'' @
     [CHR 0xE0, CHR 0xE1, CHR 0xE2, CHR 0xE3, CHR 0xE4, CHR 0xE5, CHR 0xE6, CHR 0xE7,
     CHR 0xE8, CHR 0xE9, CHR 0xEA, CHR 0xEB, CHR 0xEC, CHR 0xED, CHR 0xEE, CHR 0xEF,
     CHR 0xF0, CHR 0xF1, CHR 0xF2, CHR 0xF3, CHR 0xF4, CHR 0xF5, CHR 0xF6, CHR 0xF8,
     CHR 0xF9, CHR 0xFA, CHR 0xFB, CHR 0xFC, CHR 0xFD, CHR 0xFE]"

definition toLowerChar :: "char \<Rightarrow> char" where
  "toLowerChar c =
     (case map_of (zip upperCaseChars lowerCaseChars) c of
        Some l \<Rightarrow> l
      | None \<Rightarrow> c)"

definition toLowerCase :: "string \<Rightarrow> string" where
  "toLowerCase s = map toLowerChar s"

text \<open>
  \<open>s.split(":")\<close>: every occurrence of the separator ends a piece, so the result has one
  piece more than \<open>s\<close> has separators and is never empty.
\<close>

fun split_char :: "char \<Rightarrow> string \<Rightarrow> string list" where
  "split_char sep [] = [[]]"
| "split_char sep (c # cs) =
     (if c = sep then [] # split_char sep cs
      else (case split_char sep cs of
              [] \<Rightarrow> [[c]]
            | t # ts \<Rightarrow> (c # t) # ts))"

text \<open>
  The characters that \<open>\s\<close> matches among the code units below 256: tab, line feed,
  vertical tab, form feed, carriage return, space and the no-break space.
\<close>

definition isSpace :: "char \<Rightarrow> bool" where
  "isSpace c =
     (c \<in> set [CHR 0x09, CHR 0x0A, CHR 0x0B, CHR 0x0C, CHR 0x0D, CHR 0x20, CHR 0xA0])"

text \<open>
  \<open>s.split(/\s+/)\<close>: a maximal run of white space is one separator; white space at the
  start or at the end leaves an empty piece there.
\<close>

function split_ws :: "string \<Rightarrow> string list" where
  "split_ws [] = [[]]"
| "split_ws (c # cs) =
     (if isSpace c then [] # split_ws (dropWhile isSpace cs)
      else (case split_ws cs of
              [] \<Rightarrow> [[c]]
            | t # ts \<Rightarrow> (c # t) # ts))"
  by pat_completeness auto
termination
  by (relation "measure length") (auto simp: length_dropWhile_le le_imp_less_Suc)

text \<open>\<open>args.join(' ')\<close>.\<close>

fun join_space :: "string list \<Rightarrow> string" where
  "join_space [] = []"
| "join_space [t] = t"
| "join_space (t # ts) = t @ '' '' @ join_space ts"

text \<open>\<open>Array.from(new Set(xs))\<close>: the first occurrence of each element, in order.\<close>

definition set_insert :: "'a list \<Rightarrow> 'a \<Rightarrow> 'a list" where
  "set_insert acc x = (if x \<in> set acc then acc else acc @ [x])"

definition array_from_set :: "'a list \<Rightarrow> 'a list" where
  "array_from_set xs = foldl set_insert [] xs"

section \<open>Header helpers of \<open>utils/misc\<close>\<close>

text \<open>
  Modelled from the spec: the search for a header name that \<open>getHeader\<close> and
  \<open>removeHeader\<close> of \<open>utils/misc\<close> share; the source of that module is not part of the
  files at hand. The spec calls the lookup case-insensitive: the first key that equals
  the name up to letter case.
\<close>

definition findHeaderName :: "string obj \<Rightarrow> string \<Rightarrow> string option" where
  "findHeaderName hs name =
     find (\<lambda>h. toLowerCase h = toLowerCase name) (map fst hs)"

text \<open>
  Modelled from the spec: \<open>getHeader\<close> of \<open>utils/misc\<close>, whose source is not part of the
  files at hand: the value stored under the key that the case-insensitive search finds.
\<close>

definition getHeader :: "string obj \<Rightarrow> string \<Rightarrow> string option" where
  "getHeader hs name =
     (case findHeaderName hs name of
        None \<Rightarrow> None
      | Some h \<Rightarrow> map_of hs h)"

text \<open>
  Modelled from the spec: \<open>removeHeader\<close> of \<open>utils/misc\<close>, whose source is not part of
  the files at hand. The spec says the header that the lookup found is removed from the
  mapping it is given.
\<close>

definition removeHeader :: "string obj \<Rightarrow> string \<Rightarrow> string obj" where
  "removeHeader hs name =
     (case findHeaderName hs name of
        None \<Rightarrow> hs
      | Some h \<Rightarrow> AList.delete h hs)"

section \<open>Proxy bypass\<close>

text \<open>
  What \<open>url.parse\<close> of Node returns, as far as this code reads it. A missing component is
  \<open>null\<close> there and \<open>None\<close> here.
\<close>

record UrlObject =
  protocol :: "string option"
  hostname :: "string option"
  port :: "string option"
  host :: "string option"

text \<open>\<open>!port\<close> and \<open>!pp\<close>: \<open>null\<close>, \<open>undefined\<close> and the empty string are falsy.\<close>

definition falsy :: "string option \<Rightarrow> bool" where
  "falsy s = (s = None \<or> s = Some [])"

text \<open>
  The body of the \<open>for\<close> loop of \<open>ignoreProxy\<close> for one entry \<open>eh\<close>: \<open>ph\<close> is
  \<open>urlParts[0]\<close>, \<open>rest = []\<close> is \<open>urlParts.length === 1\<close>, \<open>pp\<close> is \<open>urlParts[1]\<close>.
\<close>

definition matchesExclude :: "string option \<Rightarrow> string option \<Rightarrow> string \<Rightarrow> bool" where
  "matchesExclude hostName prt eh =
     (case split_char CHR '':'' eh of
        [] \<Rightarrow> False
      | ph # rest \<Rightarrow>
          if falsy prt then
            rest = [] \<and> Some ph = hostName
          else
            (let pp = (case rest of [] \<Rightarrow> None | p # _ \<Rightarrow> Some p)
             in Some ph = hostName \<and> (falsy pp \<or> pp = prt)))"

text \<open>
  \<open>HttpClient.ignoreProxy\<close>. \<open>url.parse\<close> belongs to the platform, so the function takes
  it as its first argument.
\<close>

definition ignoreProxy :: "(string \<Rightarrow> UrlObject) \<Rightarrow> string \<Rightarrow> string list \<Rightarrow> bool" where
  "ignoreProxy url_parse requestUrl excludeHostsForProxy =
     (if excludeHostsForProxy = [] then False
      else
        (let resolvedUrl = url_parse requestUrl;
             hostName = map_option toLowerCase (hostname resolvedUrl);
             prt = port resolvedUrl;
             excludeHostsProxyList = array_from_set (map toLowerCase excludeHostsForProxy)
         in list_ex (matchesExclude hostName prt) excludeHostsProxyList))"

text \<open>
  A model of \<open>url.parse\<close> on URLs of the shape \<open>scheme://host[:port][/path]\<close> without user
  information, for evaluating \<open>ignoreProxy\<close> on concrete URLs: the scheme with its colon,
  the host name in lower case, the port when one is written. The host is a name or an
  IPv6 address in square brackets; \<open>hostname\<close> holds the address without the brackets
  and \<open>host\<close> with them, as Node returns them.
\<close>

fun split_scheme :: "string \<Rightarrow> (string \<times> string) option" where
  "split_scheme [] = None"
| "split_scheme (c # cs) =
     (if take 3 (c # cs) = ''://'' then Some ([], drop 3 (c # cs))
      else map_option (\<lambda>(p, r). (c # p, r)) (split_scheme cs))"

definition simple_url_parse :: "string \<Rightarrow> UrlObject" where
  "simple_url_parse u =
     (case split_scheme u of
        None \<Rightarrow> \<lparr>protocol = None, hostname = None, port = None, host = None\<rparr>
      | Some (scheme, rest) \<Rightarrow>
          (let authority = toLowerCase (takeWhile (\<lambda>c. c \<notin> set ''/?#'') rest)
           in case authority of
                CHR ''['' # inner \<Rightarrow>
                  (let h = takeWhile (\<lambda>c. c \<noteq> CHR '']'') inner;
                       p = drop 2 (dropWhile (\<lambda>c. c \<noteq> CHR '']'') inner)
                   in \<lparr>protocol = Some (toLowerCase scheme @ '':''),
                       hostname = Some h,
                       port = (if p = [] then None else Some p),
                       host = Some (if p = [] then ''['' @ h @ '']''
                                    else ''['' @ h @ '']:'' @ p)\<rparr>)
              | _ \<Rightarrow>
                  (let h = takeWhile (\<lambda>c. c \<noteq> CHR '':'') authority;
                       p = drop 1 (dropWhile (\<lambda>c. c \<noteq> CHR '':'') authority)
                   in \<lparr>protocol = Some (toLowerCase scheme @ '':''),
                       hostname = Some h,
                       port = (if p = [] then None else Some p),
                       host = Some (if p = [] then h else h @ '':'' @ p)\<rparr>)))"

section \<open>Header-name case normalisation\<close>

text \<open>
  The members that every object literal inherits from \<open>Object.prototype\<close>, each with the
  string its value becomes when it is used as a property key. The \<open>in\<close> operator and a
  property read see them; \<open>for ... in\<close> and \<open>Object.keys\<close> do not.
\<close>

definition objectPrototype :: "string obj" where
  "objectPrototype =
     [(''constructor'', ''function Object() { [native code] }''),
      (''__defineGetter__'', ''function __defineGetter__() { [native code] }''),
      (''__defineSetter__'', ''function __defineSetter__() { [native code] }''),
      (''hasOwnProperty'', ''function hasOwnProperty() { [native code] }''),
      (''__lookupGetter__'', ''function __lookupGetter__() { [native code] }''),
      (''__lookupSetter__'', ''function __lookupSetter__() { [native code] }''),
      (''isPrototypeOf'', ''function isPrototypeOf() { [native code] }''),
      (''propertyIsEnumerable'', ''function propertyIsEnumerable() { [native code] }''),
      (''toString'', ''function toString() { [native code] }''),
      (''valueOf'', ''function valueOf() { [native code] }''),
      (''__proto__'', ''[object Object]''),
      (''toLocaleString'', ''function toLocaleString() { [native code] }'')]"

text \<open>\<open>k in o\<close> for an object literal \<open>o\<close>: an own or an inherited property.\<close>

definition js_in :: "string \<Rightarrow> 'v obj \<Rightarrow> bool" where
  "js_in k ob = (k \<in> set (map fst ob) \<or> k \<in> set (map fst objectPrototype))"

text \<open>The callback of \<open>rawHeaders.reduce\<close>, and the dictionary it builds from \<open>{}\<close>.\<close>

definition headersDic_step :: "string obj \<Rightarrow> string \<Rightarrow> string obj" where
  "headersDic_step prev cur =
     (if \<not> js_in (toLowerCase cur) prev then AList.update (toLowerCase cur) cur prev
      else prev)"

definition headersDic :: "string list \<Rightarrow> string obj" where
  "headersDic rawHeaders = foldl headersDic_step [] rawHeaders"

text \<open>
  \<open>headersDic[header] || header\<close>: an own entry when it is a non-empty string, else the
  inherited member (an object or a function, so truthy, and a string once it is a key),
  else the header name itself.
\<close>

definition adjustedHeaderName :: "string obj \<Rightarrow> string \<Rightarrow> string" where
  "adjustedHeaderName dic header =
     (case map_of dic header of
        Some r \<Rightarrow> (if r = [] then header else r)
      | None \<Rightarrow>
          (case map_of objectPrototype header of
             Some inherited \<Rightarrow> inherited
           | None \<Rightarrow> header))"

text \<open>\<open>HttpClient.normalizeHeaderNames\<close>.\<close>

definition normalizeHeaderNames :: "'v obj \<Rightarrow> string list \<Rightarrow> 'v obj" where
  "normalizeHeaderNames hs rawHeaders =
     (let dic = headersDic rawHeaders
      in foldl (\<lambda>adjustedResponseHeaders (header, v).
                  AList.update (adjustedHeaderName dic header) v adjustedResponseHeaders)
           [] hs)"

section \<open>Building the transport options\<close>

datatype error =
    TypeError            \<comment> \<open>a method called on \<open>undefined\<close>\<close>
  | AuthResolutionError  \<comment> \<open>the promise of \<open>awsCognito\<close> rejected\<close>

text \<open>The hooks that \<open>digest\<close>, \<open>awsSignature\<close> and \<open>awsCognito\<close> return, by their arguments.\<close>

datatype hook =
    Digest string string
  | AwsSignature string
  | AwsCognito string

text \<open>
  A request body is a string or a readable stream, the latter given by the bytes it
  delivers; \<open>convertStreamToBuffer\<close> reads them all, \<open>convertBufferToStream\<close> wraps them
  again.
\<close>

datatype body = StringBody string | StreamBody Buffer

datatype requestBody = BodyString string | BodyBuffer Buffer

text \<open>
  \<open>HttpRequest\<close>; \<open>httpMethod\<close> is its field \<open>method\<close>. In the request handed to \<open>send\<close>
  the field \<open>headers\<close> is a reference to a header object in the store; in the request
  echoed by the response it is the object itself.
\<close>

record 'h HttpRequest =
  httpMethod :: string
  url :: string
  headers :: 'h
  body :: "body option"
  rawBody :: "string option"
  name :: "string option"

record Settings =
  followRedirect :: bool
  timeoutInMilliseconds :: int
  rememberCookiesForSubsequentRequests :: bool
  proxy :: string
  excludeHostsForProxy :: "string list"
  proxyStrictSSL :: bool
  decodeEscapedUnicodeCharacters :: bool

record Certificate =
  cert :: "Buffer option"
  key :: "Buffer option"
  pfx :: "Buffer option"
  passphrase :: "string option"

text \<open>
  The proxy agent: the options it is constructed with (the port as the string that the
  source passes to \<open>Number\<close>) and whether it is the one of \<open>https-proxy-agent\<close>.
\<close>

record ProxyAgent =
  agent_host :: "string option"
  agent_port :: "string option"
  agent_rejectUnauthorized :: bool
  agent_https :: bool

text \<open>
  \<open>OptionsOfBufferResponseBody\<close> as \<open>prepareOptions\<close> fills it. \<open>opt_headers\<close> is a
  reference into the store; \<open>afterResponse\<close> and \<open>beforeRequest\<close> are the two lists of
  \<open>hooks\<close>; \<open>rejectUnauthorized\<close> is the one of \<open>https\<close>; \<open>certificate\<close> holds what
  \<open>Object.assign(options, certificate)\<close> copies.
\<close>

record Options =
  opt_headers :: nat
  opt_method :: string
  opt_body :: "requestBody option"
  responseType :: string
  decompress :: bool
  opt_followRedirect :: bool
  throwHttpErrors :: bool
  retry :: nat
  afterResponse :: "hook list"
  beforeRequest :: "hook list"
  rejectUnauthorized :: bool
  timeout :: "int option"
  cookieJar :: bool
  username :: "string option"
  password :: "string option"
  certificate :: "Certificate option"
  agent :: "ProxyAgent option"

text \<open>
  What the code calls outside this class: Node's \<open>url.parse\<close>, the \<open>encodeurl\<close> and
  \<open>iconv-lite\<close> packages, \<open>Buffer.toString\<close>, the Cognito sign-in, and the file system
  behind \<open>getRequestCertificate\<close>.
\<close>

record Platform =
  url_parse :: "string \<Rightarrow> UrlObject"
  encodeUrl :: "string \<Rightarrow> string"
  awsCognito :: "string \<Rightarrow> error + hook"
  getRequestCertificate :: "string \<Rightarrow> Certificate option"
  encodingExists :: "string \<Rightarrow> bool"
  iconv_decode :: "Buffer \<Rightarrow> string \<Rightarrow> jsstring"
  buffer_toString :: "Buffer \<Rightarrow> jsstring"

text \<open>
  The store of header objects: a reference is an index, and a reference that the
  program holds is below the length of the store. \<open>Object.assign({}, o)\<close> allocates a new
  object at the end; \<open>removeHeader\<close> mutates the object it is given in place.
\<close>

type_synonym heap = "string obj list"

definition removeHeaderAt :: "heap \<Rightarrow> nat \<Rightarrow> string \<Rightarrow> heap" where
  "removeHeaderAt hp a header = hp[a := removeHeader (hp ! a) header]"

text \<open>The first lines of \<open>prepareOptions\<close>: the body is read into memory.\<close>

definition materialize :: "body option \<Rightarrow> requestBody option" where
  "materialize originalRequestBody =
     (case originalRequestBody of
        None \<Rightarrow> None
      | Some (StringBody s) \<Rightarrow> (if s = [] then None else Some (BodyString s))
      | Some (StreamBody bytes) \<Rightarrow> Some (BodyBuffer bytes))"

text \<open>
  The authorization block of \<open>prepareOptions\<close>. The destructuring
  \<open>[scheme, user, ...args]\<close> is the \<open>case\<close> on the tokens: with one token \<open>user\<close> is
  \<open>undefined\<close> and \<open>args\<close> is empty, so for \<open>basic\<close> the call \<open>user.includes\<close> throws.
  \<open>[username, password] = user.split(':')\<close> takes the first two pieces.
\<close>

definition authorize :: "Platform \<Rightarrow> Options \<Rightarrow> heap \<Rightarrow> (error + Options) \<times> heap" where
  "authorize P options hp =
     (case getHeader (hp ! opt_headers options) ''Authorization'' of
        None \<Rightarrow> (Inr options, hp)
      | Some authorization \<Rightarrow>
          if authorization = [] then (Inr options, hp)
          else
            (case split_ws authorization of
               [] \<Rightarrow> (Inr options, hp)
             | [scheme] \<Rightarrow>
                 if toLowerCase scheme = ''basic'' then (Inl TypeError, hp)
                 else (Inr options, hp)
             | scheme # user # args \<Rightarrow>
                 (let normalizedScheme = toLowerCase scheme in
                  if args \<noteq> [] then
                    (let pass = join_space args in
                     if normalizedScheme = ''basic'' then
                       (Inr (options\<lparr>username := Some user, password := Some pass\<rparr>),
                        removeHeaderAt hp (opt_headers options) ''Authorization'')
                     else if normalizedScheme = ''digest'' then
                       (Inr (options\<lparr>afterResponse := afterResponse options @ [Digest user pass]\<rparr>),
                        removeHeaderAt hp (opt_headers options) ''Authorization'')
                     else if normalizedScheme = ''aws'' then
                       (Inr (options\<lparr>beforeRequest :=
                                        beforeRequest options @ [AwsSignature authorization]\<rparr>),
                        removeHeaderAt hp (opt_headers options) ''Authorization'')
                     else if normalizedScheme = ''cognito'' then
                       (case awsCognito P authorization of
                          Inl e \<Rightarrow> (Inl e, removeHeaderAt hp (opt_headers options) ''Authorization'')
                        | Inr h \<Rightarrow>
                            (Inr (options\<lparr>beforeRequest := beforeRequest options @ [h]\<rparr>),
                             removeHeaderAt hp (opt_headers options) ''Authorization''))
                     else (Inr options, hp))
                  else if normalizedScheme = ''basic'' \<and> CHR '':'' \<in> set user then
                    (case split_char CHR '':'' user of
                       [] \<Rightarrow>
                         (Inr (options\<lparr>username := None, password := None\<rparr>),
                          removeHeaderAt hp (opt_headers options) ''Authorization'')
                     | [u] \<Rightarrow>
                         (Inr (options\<lparr>username := Some u, password := None\<rparr>),
                          removeHeaderAt hp (opt_headers options) ''Authorization'')
                     | u # p # _ \<Rightarrow>
                         (Inr (options\<lparr>username := Some u, password := Some p\<rparr>),
                          removeHeaderAt hp (opt_headers options) ''Authorization''))
                  else (Inr options, hp))))"

text \<open>The proxy block of \<open>prepareOptions\<close>; \<open>/^https?:$/\<close> accepts two strings.\<close>

definition setProxy :: "Platform \<Rightarrow> string \<Rightarrow> Settings \<Rightarrow> Options \<Rightarrow> Options" where
  "setProxy P requestUrl settings options =
     (if proxy settings \<noteq> []
         \<and> \<not> ignoreProxy (url_parse P) requestUrl (excludeHostsForProxy settings) then
        (let proxyEndpoint = url_parse P (proxy settings) in
         if protocol proxyEndpoint = Some ''http:'' \<or> protocol proxyEndpoint = Some ''https:'' then
           options\<lparr>agent := Some \<lparr>agent_host = hostname proxyEndpoint,
                                   agent_port = port proxyEndpoint,
                                   agent_rejectUnauthorized = proxyStrictSSL settings,
                                   agent_https = (take 5 requestUrl \<noteq> ''http:'')\<rparr>\<rparr>
         else options)
      else options)"

text \<open>
  The options literal of \<open>prepareOptions\<close> with the two assignments that follow it (the
  timeout when it is positive, the cookie jar when cookies are remembered).
\<close>

definition initialOptions :: "nat HttpRequest \<Rightarrow> Settings \<Rightarrow> nat \<Rightarrow> Options" where
  "initialOptions httpRequest settings clonedHeaders =
     \<lparr>opt_headers = clonedHeaders,
      opt_method = httpMethod httpRequest,
      opt_body = materialize (body httpRequest),
      responseType = ''buffer'',
      decompress = True,
      opt_followRedirect = followRedirect settings,
      throwHttpErrors = False,
      retry = 0,
      afterResponse = [],
      beforeRequest = [],
      rejectUnauthorized = False,
      timeout = (if timeoutInMilliseconds settings > 0
                 then Some (timeoutInMilliseconds settings) else None),
      cookieJar = rememberCookiesForSubsequentRequests settings,
      username = None,
      password = None,
      certificate = None,
      agent = None\<rparr>"

text \<open>
  \<open>HttpClient.prepareOptions\<close>, on a store: the result is the options or the error the
  promise rejects with, and the store as the call leaves it. \<open>clonedHeaders\<close> is the
  reference to the copy that \<open>Object.assign({}, httpRequest.headers)\<close> allocates.
\<close>

definition prepareOptions ::
  "Platform \<Rightarrow> nat HttpRequest \<Rightarrow> Settings \<Rightarrow> heap \<Rightarrow> (error + Options) \<times> heap" where
  "prepareOptions P httpRequest settings hp =
     (let clonedHeaders = length hp;
          hp1 = hp @ [hp ! headers httpRequest];
          options0 = initialOptions httpRequest settings clonedHeaders
      in case authorize P options0 hp1 of
           (Inl e, hp2) \<Rightarrow> (Inl e, hp2)
         | (Inr options1, hp2) \<Rightarrow>
             (let options2 = options1\<lparr>certificate := getRequestCertificate P (url httpRequest)\<rparr>
              in (Inr (setProxy P (url httpRequest) settings options2), hp2)))"

section \<open>Media types\<close>

definition trim :: "string \<Rightarrow> string" where
  "trim s = rev (dropWhile isSpace (rev (dropWhile isSpace s)))"

record MIME =
  mime_essence :: string
  mime_charset :: "string option"

text \<open>
  Modelled from the spec: \<open>MimeUtility.parse\<close> of \<open>utils/mimeUtility\<close>, whose source is not
  part of the files at hand. The spec defines the essence as the media type of a
  content-type value with the charset and every other parameter stripped, and the
  charset as the value of its declared \<open>charset\<close> parameter.
\<close>

definition MimeUtility_parse :: "string \<Rightarrow> MIME" where
  "MimeUtility_parse contentTypeString =
     (let params = split_char CHR '';'' contentTypeString
      in \<lparr>mime_essence = trim (case params of [] \<Rightarrow> [] | t # _ \<Rightarrow> t),
          mime_charset =
            (case find (\<lambda>p. toLowerCase (take 8 p) = ''charset='') (map trim (drop 1 params)) of
               None \<Rightarrow> None
             | Some p \<Rightarrow> Some (drop 8 p))\<rparr>)"

text \<open>
  Modelled from the spec: \<open>getContentType\<close> of \<open>utils/misc\<close>, whose source is not part of
  the files at hand: the value of the content-type header, looked up without regard to
  letter case.
\<close>

definition getContentType :: "string obj \<Rightarrow> string option" where
  "getContentType hs = getHeader hs ''content-type''"

section \<open>The response and its consumer\<close>

text \<open>
  \<open>HttpResponse\<close>; \<open>res_headers\<close> and \<open>res_body\<close> are its fields \<open>headers\<close> and \<open>body\<close>.
  \<open>headersSizeInBytes\<close> is a rational because the source halves a length.
\<close>

record HttpResponse =
  statusCode :: nat
  statusMessage :: string
  httpVersion :: string
  res_headers :: "string obj"
  res_body :: jsstring
  bodySizeInBytes :: nat
  headersSizeInBytes :: rat
  bodyBuffer :: Buffer
  request :: "(string obj) HttpRequest"

definition contentType :: "HttpResponse \<Rightarrow> string option" where
  "contentType r = getContentType (res_headers r)"

definition essence :: "HttpResponse \<Rightarrow> string option" where
  "essence r =
     (case contentType r of
        None \<Rightarrow> None
      | Some ct \<Rightarrow> (if ct = [] then None else Some (mime_essence (MimeUtility_parse ct))))"

text \<open>
  The \<open>IncomingMessage\<close> that the \<open>response\<close> event carries: \<open>im_headers\<close> is its
  \<open>headers\<close> (names in lower case), \<open>rawHeaders\<close> the flat list of names and values as
  received, \<open>im_requestHeaders\<close> is \<open>request.options.headers\<close>. Node always supplies the
  array \<open>rawHeaders\<close>, and an array is truthy even when empty, so the guard
  \<open>if (response.rawHeaders)\<close> of the callback is always taken.
\<close>

record IncomingMessage =
  im_statusCode :: nat
  im_statusMessage :: string
  im_httpVersion :: string
  im_headers :: "string obj"
  rawHeaders :: "string list"
  im_requestHeaders :: "string obj"

datatype event = Response IncomingMessage | Data Buffer | End

text \<open>
  The variables that the callbacks of \<open>send\<close> close over. \<open>bodySize\<close> and \<open>headersSize\<close>
  are declared in \<open>send\<close>; \<open>encoding\<close>, \<open>local_bodyBuffer\<close> (the \<open>let bodyBuffer\<close> of the
  handler) and \<open>httpResponse\<close> in the \<open>response\<close> handler. \<open>endHandler\<close> says whether a
  listener for \<open>end\<close> is attached, \<open>resolved\<close> whether \<open>resolve(httpResponse)\<close> has been
  called: the caller then holds the object in \<open>httpResponse\<close>.
\<close>

record SendState =
  bodySize :: nat
  headersSize :: rat
  encoding :: string
  local_bodyBuffer :: Buffer
  httpResponse :: "HttpResponse option"
  endHandler :: bool
  resolved :: bool

definition initialState :: SendState where
  "initialState =
     \<lparr>bodySize = 0, headersSize = 0, encoding = [], local_bodyBuffer = [],
      httpResponse = None, endHandler = False, resolved = False\<rparr>"

text \<open>
  \<open>HttpClient.decodeEscapedUnicodeCharacters\<close>, on UTF-16 code units; the setting keeps
  that name here and the method is \<open>unescapeUnicode\<close>. The pattern is matched from left
  to right: a backslash, \<open>u\<close> (or \<open>U\<close>, by the flag \<open>i\<close>) and four hexadecimal digits
  become the code unit they denote, or \<open>\"\<close> when that is the double quote.
\<close>

definition isHexDigit :: "16 word \<Rightarrow> bool" where
  "isHexDigit w = ((0x30 \<le> w \<and> w \<le> 0x39) \<or> (0x41 \<le> w \<and> w \<le> 0x46) \<or> (0x61 \<le> w \<and> w \<le> 0x66))"

definition hexValue :: "16 word \<Rightarrow> 16 word" where
  "hexValue w =
     (if w \<le> 0x39 then w - 0x30 else if w \<le> 0x46 then w - 0x37 else w - 0x57)"

fun unescapeUnicode :: "jsstring \<Rightarrow> jsstring" where
  "unescapeUnicode (c # u # h1 # h2 # h3 # h4 # rest) =
     (if c = 0x5C \<and> (u = 0x75 \<or> u = 0x55)
         \<and> isHexDigit h1 \<and> isHexDigit h2 \<and> isHexDigit h3 \<and> isHexDigit h4 then
        (let ch = ((hexValue h1 * 16 + hexValue h2) * 16 + hexValue h3) * 16 + hexValue h4
         in (if ch = 0x22 then [0x5C, 0x22] else [ch]) @ unescapeUnicode rest)
      else c # unescapeUnicode (u # h1 # h2 # h3 # h4 # rest))"
| "unescapeUnicode (c # cs) = c # unescapeUnicode cs"
| "unescapeUnicode [] = []"

text \<open>The echo of the outgoing request that the response carries.\<close>

definition echoRequest ::
  "Platform \<Rightarrow> nat HttpRequest \<Rightarrow> Options \<Rightarrow> heap \<Rightarrow> IncomingMessage \<Rightarrow> (string obj) HttpRequest"
where
  "echoRequest P httpRequest options hp response =
     \<lparr>httpMethod = opt_method options,
      url = encodeUrl P (url httpRequest),
      headers = normalizeHeaderNames (im_requestHeaders response)
                  (map fst (hp ! headers httpRequest)),
      body = (case opt_body options of
                None \<Rightarrow> None
              | Some (BodyString s) \<Rightarrow> Some (StringBody s)
              | Some (BodyBuffer bytes) \<Rightarrow> Some (StreamBody bytes)),
      rawBody = rawBody httpRequest,
      name = name httpRequest\<rparr>"

text \<open>
  The two additions to \<open>headersSize\<close>: the lengths of the entries of \<open>rawHeaders\<close>, and
  \<open>rawHeaders.length / 2\<close>.
\<close>

definition addHeadersSize :: "rat \<Rightarrow> string list \<Rightarrow> rat" where
  "addHeadersSize size0 raw =
     size0 + of_nat (sum_list (map length raw)) + of_nat (length raw) / 2"

text \<open>
  The charset of the \<open>content-type\<close> header, read from the lower-case header object of
  the message, or \<open>utf8\<close>.
\<close>

definition chooseEncoding :: "IncomingMessage \<Rightarrow> string" where
  "chooseEncoding response =
     (let declared = (case map_of (im_headers response) ''content-type'' of
                        None \<Rightarrow> None
                      | Some ct \<Rightarrow> (if ct = [] then None else mime_charset (MimeUtility_parse ct)))
      in case declared of
           None \<Rightarrow> ''utf8''
         | Some e \<Rightarrow> (if e = [] then ''utf8'' else e))"

text \<open>The \<open>new HttpResponse(...)\<close> of the \<open>response\<close> callback.\<close>

definition newHttpResponse ::
  "Platform \<Rightarrow> nat HttpRequest \<Rightarrow> Options \<Rightarrow> heap \<Rightarrow> SendState \<Rightarrow> IncomingMessage \<Rightarrow> HttpResponse"
where
  "newHttpResponse P httpRequest options hp st response =
     \<lparr>statusCode = im_statusCode response,
      statusMessage = im_statusMessage response,
      httpVersion = im_httpVersion response,
      res_headers = normalizeHeaderNames (im_headers response) (rawHeaders response),
      res_body = [],
      bodySizeInBytes = bodySize st,
      headersSizeInBytes = addHeadersSize (headersSize st) (rawHeaders response),
      bodyBuffer = [],
      request = echoRequest P httpRequest options hp response\<rparr>"

text \<open>
  The callback of the \<open>response\<close> event: it sets up the variables of its closure and
  either resolves at once or attaches the listener for \<open>end\<close>.
\<close>

definition onResponse ::
  "Platform \<Rightarrow> nat HttpRequest \<Rightarrow> Options \<Rightarrow> heap \<Rightarrow> SendState \<Rightarrow> IncomingMessage \<Rightarrow> SendState"
where
  "onResponse P httpRequest options hp st response =
     (let r = newHttpResponse P httpRequest options hp st response;
          st1 = st\<lparr>headersSize := addHeadersSize (headersSize st) (rawHeaders response),
                   encoding := chooseEncoding response,
                   local_bodyBuffer := [],
                   httpResponse := Some r\<rparr>
      in if essence r = Some ''text/event-stream'' then st1\<lparr>resolved := True\<rparr>
         else st1\<lparr>endHandler := True\<rparr>)"

text \<open>
  The text that the \<open>data\<close> callback appends for one chunk: \<open>bodyString\<close> after the
  optional unescaping.
\<close>

definition decodeChunk :: "Platform \<Rightarrow> Settings \<Rightarrow> string \<Rightarrow> Buffer \<Rightarrow> jsstring" where
  "decodeChunk P settings enc chunk =
     (let bodyString = (if encodingExists P enc then iconv_decode P chunk enc
                        else buffer_toString P chunk)
      in if decodeEscapedUnicodeCharacters settings then unescapeUnicode bodyString
         else bodyString)"

text \<open>
  The callback of the \<open>data\<close> event; it is attached by the \<open>response\<close> handler, so a chunk
  before that finds no listener. \<open>Buffer.concat([bodyBuffer, chunk])\<close> reads the local
  variable \<open>bodyBuffer\<close> of the \<open>response\<close> handler.
\<close>

definition onData :: "Platform \<Rightarrow> Settings \<Rightarrow> SendState \<Rightarrow> Buffer \<Rightarrow> SendState" where
  "onData P settings st chunk =
     (case httpResponse st of
        None \<Rightarrow> st
      | Some r \<Rightarrow>
          (let bodySize1 = bodySize st + length chunk;
               bodyString = decodeChunk P settings (encoding st) chunk
           in st\<lparr>bodySize := bodySize1,
                 httpResponse := Some (r\<lparr>res_body := res_body r @ bodyString,
                                          bodyBuffer := local_bodyBuffer st @ chunk,
                                          bodySizeInBytes := bodySize1\<rparr>)\<rparr>))"

text \<open>The callback of the \<open>end\<close> event, when one is attached.\<close>

definition onEnd :: "SendState \<Rightarrow> SendState" where
  "onEnd st = (if endHandler st then st\<lparr>resolved := True\<rparr> else st)"

fun onEvent ::
  "Platform \<Rightarrow> Settings \<Rightarrow> nat HttpRequest \<Rightarrow> Options \<Rightarrow> heap \<Rightarrow> SendState \<Rightarrow> event \<Rightarrow> SendState"
where
  "onEvent P settings httpRequest options hp st (Response response) =
     onResponse P httpRequest options hp st response"
| "onEvent P settings httpRequest options hp st (Data chunk) = onData P settings st chunk"
| "onEvent P settings httpRequest options hp st End = onEnd st"

text \<open>
  The events of one request, handled in arrival order from the initial state of \<open>send\<close>.
\<close>

definition receive ::
  "Platform \<Rightarrow> Settings \<Rightarrow> nat HttpRequest \<Rightarrow> Options \<Rightarrow> heap \<Rightarrow> event list \<Rightarrow> SendState"
where
  "receive P settings httpRequest options hp events =
     foldl (onEvent P settings httpRequest options hp) initialState events"

text \<open>
  \<open>HttpClient.send\<close>: the options are prepared, which may reject, and the events of the
  transport are consumed.
\<close>

definition send ::
  "Platform \<Rightarrow> nat HttpRequest \<Rightarrow> Settings \<Rightarrow> heap \<Rightarrow> event list \<Rightarrow> (error + SendState) \<times> heap"
where
  "send P httpRequest settings hp events =
     (case prepareOptions P httpRequest settings hp of
        (Inl e, hp1) \<Rightarrow> (Inl e, hp1)
      | (Inr options, hp1) \<Rightarrow> (Inr (receive P settings httpRequest options hp1 events), hp1))"

section \<open>A platform for concrete runs\<close>

text \<open>
  UTF-8 as \<open>iconv.decode\<close> and \<open>Buffer.toString\<close> read it: a well-formed sequence of up to
  three bytes is one code unit, one of four bytes a surrogate pair, and a byte that
  starts no well-formed sequence is U+FFFD.
\<close>

definition isContinuation :: "8 word \<Rightarrow> bool" where
  "isContinuation b = (0x80 \<le> b \<and> b \<le> 0xBF)"

definition followedBy :: "nat \<Rightarrow> Buffer \<Rightarrow> bool" where
  "followedBy n bs = (n \<le> length bs \<and> list_all isContinuation (take n bs))"

definition codePoint :: "nat \<Rightarrow> Buffer \<Rightarrow> nat" where
  "codePoint lead bs = foldl (\<lambda>acc b. acc * 64 + unat b mod 64) lead bs"

definition codeUnits :: "nat \<Rightarrow> jsstring" where
  "codeUnits cp =
     (if cp < 0x10000 then [of_nat cp]
      else [of_nat (0xD800 + (cp - 0x10000) div 1024), of_nat (0xDC00 + (cp - 0x10000) mod 1024)])"

function utf8_decode :: "Buffer \<Rightarrow> jsstring" where
  "utf8_decode [] = []"
| "utf8_decode (b # bs) =
     (if b < 0x80 then ucast b # utf8_decode bs
      else if 0xC2 \<le> b \<and> b \<le> 0xDF \<and> followedBy 1 bs then
        codeUnits (codePoint (unat b mod 32) (take 1 bs)) @ utf8_decode (drop 1 bs)
      else if 0xE0 \<le> b \<and> b \<le> 0xEF \<and> followedBy 2 bs then
        codeUnits (codePoint (unat b mod 16) (take 2 bs)) @ utf8_decode (drop 2 bs)
      else if 0xF0 \<le> b \<and> b \<le> 0xF4 \<and> followedBy 3 bs then
        codeUnits (codePoint (unat b mod 8) (take 3 bs)) @ utf8_decode (drop 3 bs)
      else 0xFFFD # utf8_decode bs)"
  by pat_completeness auto
termination
  by (relation "measure length") auto

definition nodePlatform :: Platform where
  "nodePlatform =
     \<lparr>url_parse = simple_url_parse,
      encodeUrl = (\<lambda>u. u),
      awsCognito = (\<lambda>authorization. Inr (AwsCognito authorization)),
      getRequestCertificate = (\<lambda>u. None),
      encodingExists = (\<lambda>e. toLowerCase e \<in> set [''utf8'', ''utf-8'']),
      iconv_decode = (\<lambda>bytes e. utf8_decode bytes),
      buffer_toString = utf8_decode\<rparr>"

text \<open>Settings, a request, a store and a response head for concrete runs.\<close>

definition exampleSettings :: Settings where
  "exampleSettings =
     \<lparr>followRedirect = True, timeoutInMilliseconds = 0,
      rememberCookiesForSubsequentRequests = False, proxy = [],
      excludeHostsForProxy = [], proxyStrictSSL = False,
      decodeEscapedUnicodeCharacters = False\<rparr>"

definition exampleRequest :: "nat HttpRequest" where
  "exampleRequest =
     \<lparr>httpMethod = ''GET'', url = ''http://a.com/x'', headers = 0,
      body = None, rawBody = None, name = None\<rparr>"

definition exampleOptions :: Options where
  "exampleOptions =
     \<lparr>opt_headers = 1, opt_method = ''GET'', opt_body = None, responseType = ''buffer'',
      decompress = True, opt_followRedirect = True, throwHttpErrors = False, retry = 0,
      afterResponse = [], beforeRequest = [], rejectUnauthorized = False, timeout = None,
      cookieJar = False, username = None, password = None, certificate = None,
      agent = None\<rparr>"

definition exampleMessage :: "string \<Rightarrow> IncomingMessage" where
  "exampleMessage ct =
     \<lparr>im_statusCode = 200, im_statusMessage = ''OK'', im_httpVersion = ''1.1'',
      im_headers = [(''content-type'', ct)],
      rawHeaders = [''Content-Type'', ct],
      im_requestHeaders = []\<rparr>"

section \<open>Notions of the specification\<close>

text \<open>
  A content-type value with its parameters stripped: the text before the first
  semicolon, without the white space around it.
\<close>

definition stripParameters :: "string \<Rightarrow> string" where
  "stripParameters ct = trim (takeWhile (\<lambda>c. c \<noteq> CHR '';'') ct)"

text \<open>
  The raw header list alternates names and values: the list for given headers, and the
  number of headers of a list.
\<close>

definition rawPairs :: "(string \<times> string) list \<Rightarrow> string list" where
  "rawPairs hs = concat (map (\<lambda>(n, v). [n, v]) hs)"

definition headerCount :: "string list \<Rightarrow> nat" where
  "headerCount raw = length raw div 2"

text \<open>
  The essence of the response that the \<open>response\<close> callback builds, from the headers of
  the message alone.
\<close>

definition essenceOfHeaders :: "string obj \<Rightarrow> string list \<Rightarrow> string option" where
  "essenceOfHeaders hs raw =
     (case getContentType (normalizeHeaderNames hs raw) of
        None \<Rightarrow> None
      | Some ct \<Rightarrow> (if ct = [] then None else Some (mime_essence (MimeUtility_parse ct))))"

text \<open>
  The name that the specification gives a key of the header mapping: the first raw name
  whose lower-case form is the key, or the key itself when there is none.
\<close>

definition firstRawName :: "string list \<Rightarrow> string \<Rightarrow> string" where
  "firstRawName raw k =
     (case find (\<lambda>r. toLowerCase r = k) raw of Some r \<Rightarrow> r | None \<Rightarrow> k)"

section \<open>Splitting strings\<close>

lemma split_char_not_Nil: "split_char sep s \<noteq> []"
  by (induction s) (auto split: list.splits)

lemma split_char_hd: "\<exists>ts. split_char sep s = takeWhile (\<lambda>c. c \<noteq> sep) s # ts"
  by (induction s) (auto split: list.splits)

lemma split_char_without: "sep \<notin> set s \<Longrightarrow> split_char sep s = [s]"
  by (induction s) (auto split: list.splits)

lemma split_char_with:
  "sep \<in> set s \<Longrightarrow>
   split_char sep s =
     takeWhile (\<lambda>c. c \<noteq> sep) s # split_char sep (drop 1 (dropWhile (\<lambda>c. c \<noteq> sep) s))"
  by (induction s) (auto split: list.splits simp: split_char_not_Nil)

section \<open>Proxy bypass: properties\<close>

lemma set_foldl_set_insert: "set (foldl set_insert acc xs) = set acc \<union> set xs"
  by (induction xs arbitrary: acc) (auto simp: set_insert_def)

lemma set_array_from_set: "set (array_from_set xs) = set xs"
  by (simp add: array_from_set_def set_foldl_set_insert)

text \<open>
  A target whose host name holds a colon is never excluded: the first piece of an entry
  has no colon, so it cannot equal the host name.
\<close>

lemma matchesExclude_colon_hostname:
  assumes "CHR '':'' \<in> set h"
  shows "\<not> matchesExclude (Some h) prt e"
proof -
  obtain ts where ts: "split_char CHR '':'' e = takeWhile (\<lambda>c. c \<noteq> CHR '':'') e # ts"
    using split_char_hd by blast
  have "CHR '':'' \<notin> set (takeWhile (\<lambda>c. c \<noteq> CHR '':'') e)"
    by (auto dest: set_takeWhileD)
  with assms have "takeWhile (\<lambda>c. c \<noteq> CHR '':'') e \<noteq> h" by auto
  then show ?thesis
    by (simp add: matchesExclude_def ts Let_def)
qed

lemma ignoreProxy_colon_hostname_never:
  assumes "hostname (parse requestUrl) = Some h" and "CHR '':'' \<in> set (toLowerCase h)"
  shows "\<not> ignoreProxy parse requestUrl excl"
  using assms
  by (simp add: ignoreProxy_def Let_def list_ex_iff matchesExclude_colon_hostname)

text \<open>
  Where the host name of the target holds no colon and no entry holds more than one,
  the loop does what its comments say: without a port in the target an entry matches
  when it is the host name; with a port it matches when it is the host name, the host
  name with an empty port, or the host name with the target's port.
\<close>

lemma matchesExclude_plain_no_port:
  assumes "falsy prt" and "CHR '':'' \<notin> set h"
  shows "matchesExclude (Some h) prt e = (e = h)"
proof (cases "CHR '':'' \<in> set e")
  case True
  with assms have "e \<noteq> h" by auto
  with True assms(1) show ?thesis
    by (simp add: matchesExclude_def split_char_with split_char_not_Nil)
next
  case False
  with assms(1) show ?thesis
    by (auto simp: matchesExclude_def split_char_without)
qed

lemma takeWhile_colon_append:
  "CHR '':'' \<notin> set x \<Longrightarrow> takeWhile (\<lambda>c. c \<noteq> CHR '':'') (x @ CHR '':'' # y) = x"
  by (induction x) auto

lemma dropWhile_colon_append:
  "CHR '':'' \<notin> set x \<Longrightarrow> dropWhile (\<lambda>c. c \<noteq> CHR '':'') (x @ CHR '':'' # y) = CHR '':'' # y"
  by (induction x) auto

lemma colon_decompose:
  "CHR '':'' \<in> set e \<Longrightarrow>
   e = takeWhile (\<lambda>c. c \<noteq> CHR '':'') e @ CHR '':'' # drop 1 (dropWhile (\<lambda>c. c \<noteq> CHR '':'') e)"
  by (induction e) auto

lemma matchesExclude_plain_port:
  assumes "p \<noteq> []" and "CHR '':'' \<notin> set h"
    and "length (filter (\<lambda>c. c = CHR '':'') e) \<le> 1"
  shows "matchesExclude (Some h) (Some p) e
           = (e = h \<or> e = h @ '':'' \<or> e = h @ '':'' @ p)"
proof (cases "CHR '':'' \<in> set e")
  case False
  then have "e \<noteq> h @ '':''" "e \<noteq> h @ '':'' @ p" by auto
  with False assms(1) show ?thesis
    by (auto simp: matchesExclude_def split_char_without falsy_def)
next
  case True
  define a where "a = takeWhile (\<lambda>c. c \<noteq> CHR '':'') e"
  define b where "b = drop 1 (dropWhile (\<lambda>c. c \<noteq> CHR '':'') e)"
  have e: "e = a @ CHR '':'' # b"
    unfolding a_def b_def using True by (rule colon_decompose)
  have na: "CHR '':'' \<notin> set a"
    unfolding a_def by (auto dest: set_takeWhileD)
  have fa: "filter (\<lambda>c. c = CHR '':'') a = []"
    using na by (auto simp: filter_empty_conv)
  have "length (filter (\<lambda>c. c = CHR '':'') e) = Suc (length (filter (\<lambda>c. c = CHR '':'') b))"
    by (subst e) (simp add: fa)
  with assms(3) have nb: "CHR '':'' \<notin> set b"
    by (auto simp: filter_empty_conv)
  have sp: "split_char CHR '':'' e = [a, b]"
    using True nb by (simp add: split_char_with split_char_without a_def b_def)
  have m: "matchesExclude (Some h) (Some p) e = (a = h \<and> (b = [] \<or> b = p))"
    using assms(1) by (auto simp: matchesExclude_def sp falsy_def)
  have "e \<noteq> h" using True assms(2) by auto
  moreover have "(e = h @ '':'') = (a = h \<and> b = [])"
  proof
    assume "e = h @ '':''"
    then show "a = h \<and> b = []"
      using assms(2) by (simp add: a_def b_def takeWhile_colon_append dropWhile_colon_append)
  next
    assume "a = h \<and> b = []"
    then show "e = h @ '':''" by (simp add: e)
  qed
  moreover have "(e = h @ '':'' @ p) = (a = h \<and> b = p)"
  proof
    assume "e = h @ '':'' @ p"
    then show "a = h \<and> b = p"
      using assms(2) by (simp add: a_def b_def takeWhile_colon_append dropWhile_colon_append)
  next
    assume "a = h \<and> b = p"
    then show "e = h @ '':'' @ p" by (simp add: e)
  qed
  ultimately show ?thesis using m by auto
qed


lemma ignoreProxy_plain_entries:
  assumes "hostname (parse requestUrl) = Some h"
    and "CHR '':'' \<notin> set (toLowerCase h)"
    and "list_all (\<lambda>e. length (filter (\<lambda>c. c = CHR '':'') (toLowerCase e)) \<le> 1) excl"
  shows "ignoreProxy parse requestUrl excl =
     (case port (parse requestUrl) of
        None \<Rightarrow> list_ex (\<lambda>e. toLowerCase e = toLowerCase h) excl
      | Some p \<Rightarrow>
          if p = [] then list_ex (\<lambda>e. toLowerCase e = toLowerCase h) excl
          else list_ex (\<lambda>e. toLowerCase e = toLowerCase h
                          \<or> toLowerCase e = toLowerCase h @ '':''
                          \<or> toLowerCase e = toLowerCase h @ '':'' @ p) excl)"
proof (cases "port (parse requestUrl)")
  case None
  have f: "falsy None" by (simp add: falsy_def)
  show ?thesis
    using assms(1,2) None
    by (auto simp: ignoreProxy_def Let_def list_ex_iff set_array_from_set
          matchesExclude_plain_no_port [OF f])
next
  case (Some p)
  show ?thesis
  proof (cases "p = []")
    case True
    have mm: "matchesExclude (Some (toLowerCase h)) (Some []) e = (e = toLowerCase h)" for e
      using assms(2) by (intro matchesExclude_plain_no_port) (simp_all add: falsy_def)
    show ?thesis
      using assms(1) Some True
      by (auto simp: ignoreProxy_def Let_def list_ex_iff set_array_from_set mm)
  next
    case False
    have "matchesExclude (Some (toLowerCase h)) (Some p) (toLowerCase e)
        = (toLowerCase e = toLowerCase h \<or> toLowerCase e = toLowerCase h @ '':''
            \<or> toLowerCase e = toLowerCase h @ '':'' @ p)" if "e \<in> set excl" for e
      using that assms(2,3) False
      by (intro matchesExclude_plain_port) (auto simp: list_all_iff)
    then show ?thesis
      using assms(1) Some False
      by (auto simp: ignoreProxy_def Let_def list_ex_iff set_array_from_set)
  qed
qed

lemma ignoreProxy_spec_runs:
  "ignoreProxy simple_url_parse ''http://internal.example.com/x'' [''internal.example.com'']"
  "\<not> ignoreProxy simple_url_parse ''http://internal.example.com:8080/x''
       [''internal.example.com:9090'']"
  "\<not> ignoreProxy simple_url_parse ''http://a.com'' []"
  by code_simp+

text \<open>
  Claim C4, evaluated on a target whose host name holds colons. For the URL
  \<open>http://[::1]/x\<close> the host name is \<open>::1\<close> and there is no port; the entry \<open>::1\<close> is a
  bare host name equal to it, yet \<open>ignoreProxy\<close> returns false, because the entry is cut
  at every colon into three pieces. For the same reason the entry \<open>a.com:8080:junk\<close>,
  whose port is not the target's port \<open>8080\<close>, excludes \<open>http://a.com:8080/x\<close>.
\<close>

theorem ignoreProxy_colon_hostname:
  "hostname (simple_url_parse ''http://[::1]/x'') = Some ''::1''
   \<and> port (simple_url_parse ''http://[::1]/x'') = None
   \<and> \<not> ignoreProxy simple_url_parse ''http://[::1]/x'' [''::1'']
   \<and> port (simple_url_parse ''http://a.com:8080/x'') = Some ''8080''
   \<and> ignoreProxy simple_url_parse ''http://a.com:8080/x'' [''a.com:8080:junk'']"
  by code_simp

section \<open>Transport options: properties\<close>

lemma setProxy_keeps:
  "username (setProxy P u s opts) = username opts"
  "password (setProxy P u s opts) = password opts"
  "afterResponse (setProxy P u s opts) = afterResponse opts"
  "beforeRequest (setProxy P u s opts) = beforeRequest opts"
  "opt_headers (setProxy P u s opts) = opt_headers opts"
  by (simp_all add: setProxy_def Let_def)

lemma take_removeHeaderAt: "n \<le> a \<Longrightarrow> take n (removeHeaderAt hp a h) = take n hp"
  by (simp add: removeHeaderAt_def)

lemma removeHeaderAt_clone:
  "removeHeaderAt (hp @ [x]) (length hp) h ! length hp = removeHeader x h"
  by (simp add: removeHeaderAt_def)

lemma getHeader_found:
  "getHeader hs n = Some v \<Longrightarrow> \<exists>k. findHeaderName hs n = Some k"
  by (auto simp: getHeader_def split: option.splits)

lemma removeHeader_found:
  "findHeaderName hs n = Some k \<Longrightarrow> map_of (removeHeader hs n) k = None"
  by (simp add: removeHeader_def delete_conv')

lemma authorize_heap:
  "snd (authorize P opts hp) = hp
   \<or> snd (authorize P opts hp) = removeHeaderAt hp (opt_headers opts) ''Authorization''"
  by (simp add: authorize_def Let_def split: option.split list.split sum.split)

lemma authorize_opt_headers:
  "fst (authorize P opts hp) = Inr opts' \<Longrightarrow> opt_headers opts' = opt_headers opts"
  by (auto simp: authorize_def Let_def split: option.splits list.splits sum.splits if_splits)

lemma prepareOptions_heap:
  "snd (prepareOptions P httpRequest settings hp)
     = snd (authorize P (initialOptions httpRequest settings (length hp))
              (hp @ [hp ! headers httpRequest]))"
  by (simp add: prepareOptions_def Let_def split: prod.split sum.split)

lemma prepareOptions_frame:
  "take (length hp) (snd (prepareOptions P httpRequest settings hp)) = hp"
  using authorize_heap [of P "initialOptions httpRequest settings (length hp)"
      "hp @ [hp ! headers httpRequest]"]
  by (auto simp: prepareOptions_heap initialOptions_def take_removeHeaderAt)

lemma prepareOptions_opt_headers:
  assumes "fst (prepareOptions P httpRequest settings hp) = Inr options"
  shows "opt_headers options = length hp"
proof -
  obtain r hp2 where a: "authorize P (initialOptions httpRequest settings (length hp))
      (hp @ [hp ! headers httpRequest]) = (r, hp2)"
    by (cases "authorize P (initialOptions httpRequest settings (length hp))
      (hp @ [hp ! headers httpRequest])")
  show ?thesis
  proof (cases r)
    case (Inl e)
    with a assms show ?thesis by (simp add: prepareOptions_def Let_def)
  next
    case (Inr o1)
    with a have "opt_headers o1 = opt_headers (initialOptions httpRequest settings (length hp))"
      using authorize_opt_headers [of P "initialOptions httpRequest settings (length hp)"
          "hp @ [hp ! headers httpRequest]" o1] by simp
    with a Inr assms show ?thesis
      by (auto simp: prepareOptions_def Let_def setProxy_keeps initialOptions_def)
  qed
qed

text \<open>
  Claim C5. Whatever the request and the settings, the header object that the request
  refers to is the same after \<open>prepareOptions\<close> as before, and so is every other object
  that existed: the options refer to a copy allocated by the call, and only that copy
  is rewritten.
\<close>

theorem prepareOptions_keeps_caller_headers:
  "headers httpRequest < length hp \<Longrightarrow>
     snd (prepareOptions P httpRequest settings hp) ! headers httpRequest
       = hp ! headers httpRequest
     \<and> take (length hp) (snd (prepareOptions P httpRequest settings hp)) = hp
     \<and> (case fst (prepareOptions P httpRequest settings hp) of
           Inl e \<Rightarrow> True
         | Inr options \<Rightarrow> opt_headers options = length hp)"
proof -
  assume a: "headers httpRequest < length hp"
  let ?hp' = "snd (prepareOptions P httpRequest settings hp)"
  have f: "take (length hp) ?hp' = hp" by (rule prepareOptions_frame)
  have "?hp' ! headers httpRequest = take (length hp) ?hp' ! headers httpRequest"
    using a by simp
  with f have "?hp' ! headers httpRequest = hp ! headers httpRequest" by simp
  with f show ?thesis
    by (auto split: sum.split dest: prepareOptions_opt_headers)
qed

theorem prepareOptions_keeps_caller_headers_witness:
  "headers exampleRequest < length [[(''Accept'', ''text/plain''), (''Authorization'', ''Basic alice:secret'')]]
   \<and> snd (prepareOptions nodePlatform exampleRequest exampleSettings
            [[(''Accept'', ''text/plain''), (''Authorization'', ''Basic alice:secret'')]]) ! 0
       = [(''Accept'', ''text/plain''), (''Authorization'', ''Basic alice:secret'')]
   \<and> snd (prepareOptions nodePlatform exampleRequest exampleSettings
            [[(''Accept'', ''text/plain''), (''Authorization'', ''Basic alice:secret'')]]) ! 1
       = [(''Accept'', ''text/plain'')]"
proof -
  let ?hp = "[[(''Accept'', ''text/plain''), (''Authorization'', ''Basic alice:secret'')]]"
  have h: "headers exampleRequest < length ?hp"
    by (simp add: exampleRequest_def)
  have z: "headers exampleRequest = 0"
    by (simp add: exampleRequest_def)
  have c: "snd (prepareOptions nodePlatform exampleRequest exampleSettings ?hp) ! 1
             = [(''Accept'', ''text/plain'')]"
    by code_simp
  from prepareOptions_keeps_caller_headers [OF h, of nodePlatform exampleSettings] h z c
  show ?thesis by simp
qed

lemma authorize_basic_args:
  assumes "getHeader (hp ! opt_headers opts) ''Authorization'' = Some authorization"
    and "split_ws authorization = scheme # user # args"
    and "args \<noteq> []"
    and "toLowerCase scheme = ''basic''"
  shows "authorize P opts hp =
           (Inr (opts\<lparr>username := Some user, password := Some (join_space args)\<rparr>),
            removeHeaderAt hp (opt_headers opts) ''Authorization'')"
proof -
  from assms(2) have "authorization \<noteq> []" by auto
  with assms show ?thesis
    by (simp add: authorize_def Let_def)
qed

lemma prepareOptions_basic_args:
  assumes "getHeader (hp ! headers httpRequest) ''Authorization'' = Some authorization"
    and "split_ws authorization = scheme # user # args"
    and "args \<noteq> []"
    and "toLowerCase scheme = ''basic''"
  shows "\<exists>options hp'. prepareOptions P httpRequest settings hp = (Inr options, hp')
           \<and> username options = Some user
           \<and> password options = Some (join_space args)
           \<and> opt_headers options = length hp
           \<and> hp' ! opt_headers options
               = removeHeader (hp ! headers httpRequest) ''Authorization''"
proof -
  let ?o = "initialOptions httpRequest settings (length hp)"
  let ?hp1 = "hp @ [hp ! headers httpRequest]"
  have "getHeader (?hp1 ! opt_headers ?o) ''Authorization'' = Some authorization"
    using assms(1) by (simp add: initialOptions_def)
  then have "authorize P ?o ?hp1 =
      (Inr (?o\<lparr>username := Some user, password := Some (join_space args)\<rparr>),
       removeHeaderAt ?hp1 (opt_headers ?o) ''Authorization'')"
    using assms(2-4) by (rule authorize_basic_args)
  then show ?thesis
    by (simp add: prepareOptions_def Let_def setProxy_keeps removeHeaderAt_clone
          initialOptions_def)
qed

text \<open>
  Claim C7. When the Authorization value splits on white space into the scheme
  \<open>basic\<close> (in any letter case), a user token and at least one more token,
  \<open>prepareOptions\<close> succeeds, its username is the user token, its password is the
  remaining tokens joined by single spaces, and the header that the lookup found is no
  longer in the cloned header object. \<open>Basic alice pass word\<close> gives the username
  \<open>alice\<close>, the password \<open>pass word\<close> and an empty clone.
\<close>

theorem basic_with_password_tokens:
  "(headers httpRequest < length hp
      \<and> getHeader (hp ! headers httpRequest) ''Authorization'' = Some authorization
      \<and> split_ws authorization = scheme # user # args
      \<and> args \<noteq> []
      \<and> toLowerCase scheme = ''basic''
    \<longrightarrow> (\<exists>options hp' k.
           prepareOptions P httpRequest settings hp = (Inr options, hp')
           \<and> username options = Some user
           \<and> password options = Some (join_space args)
           \<and> hp' ! opt_headers options
               = removeHeader (hp ! headers httpRequest) ''Authorization''
           \<and> findHeaderName (hp ! headers httpRequest) ''Authorization'' = Some k
           \<and> map_of (hp' ! opt_headers options) k = None))
   \<and> prepareOptions nodePlatform exampleRequest exampleSettings
         [[(''Authorization'', ''Basic alice pass word'')]]
       = (Inr (exampleOptions\<lparr>username := Some ''alice'', password := Some ''pass word''\<rparr>),
          [[(''Authorization'', ''Basic alice pass word'')], []])"
proof (intro conjI impI)
  assume h: "headers httpRequest < length hp
      \<and> getHeader (hp ! headers httpRequest) ''Authorization'' = Some authorization
      \<and> split_ws authorization = scheme # user # args
      \<and> args \<noteq> []
      \<and> toLowerCase scheme = ''basic''"
  then obtain k where k: "findHeaderName (hp ! headers httpRequest) ''Authorization'' = Some k"
    using getHeader_found by blast
  from h obtain options hp' where
    p: "prepareOptions P httpRequest settings hp = (Inr options, hp')"
      "username options = Some user" "password options = Some (join_space args)"
      "hp' ! opt_headers options = removeHeader (hp ! headers httpRequest) ''Authorization''"
    using prepareOptions_basic_args [of hp httpRequest authorization scheme user args P settings]
    by blast
  from k p(4) have "map_of (hp' ! opt_headers options) k = None"
    by (simp add: removeHeader_found)
  with k p show "\<exists>options hp' k.
           prepareOptions P httpRequest settings hp = (Inr options, hp')
           \<and> username options = Some user
           \<and> password options = Some (join_space args)
           \<and> hp' ! opt_headers options
               = removeHeader (hp ! headers httpRequest) ''Authorization''
           \<and> findHeaderName (hp ! headers httpRequest) ''Authorization'' = Some k
           \<and> map_of (hp' ! opt_headers options) k = None"
    by blast
next
  show "prepareOptions nodePlatform exampleRequest exampleSettings
         [[(''Authorization'', ''Basic alice pass word'')]]
       = (Inr (exampleOptions\<lparr>username := Some ''alice'', password := Some ''pass word''\<rparr>),
          [[(''Authorization'', ''Basic alice pass word'')], []])"
    by code_simp
qed

theorem basic_with_password_tokens_witness:
  "getHeader [(''Accept'', ''text/plain''), (''authorization'', ''BASIC bob  a b'')] ''Authorization''
     = Some ''BASIC bob  a b''
   \<and> split_ws ''BASIC bob  a b'' = [''BASIC'', ''bob'', ''a'', ''b'']
   \<and> (\<exists>options hp'.
         prepareOptions nodePlatform exampleRequest exampleSettings
           [[(''Accept'', ''text/plain''), (''authorization'', ''BASIC bob  a b'')]]
           = (Inr options, hp')
         \<and> username options = Some ''bob''
         \<and> password options = Some ''a b''
         \<and> map_of (hp' ! opt_headers options) ''authorization'' = None)"
proof -
  let ?hs = "[(''Accept'', ''text/plain''), (''authorization'', ''BASIC bob  a b'')]"
  have h1: "headers exampleRequest < length [?hs]"
    by (simp add: exampleRequest_def)
  have z: "[?hs] ! headers exampleRequest = ?hs"
    by (simp add: exampleRequest_def)
  have h2: "getHeader ?hs ''Authorization'' = Some ''BASIC bob  a b''"
    by code_simp
  have h3: "split_ws ''BASIC bob  a b'' = [''BASIC'', ''bob'', ''a'', ''b'']"
    by code_simp
  have h4: "toLowerCase ''BASIC'' = ''basic''"
    by code_simp
  have f: "findHeaderName ?hs ''Authorization'' = Some ''authorization''"
    by code_simp
  have "\<exists>options hp' k.
           prepareOptions nodePlatform exampleRequest exampleSettings [?hs] = (Inr options, hp')
           \<and> username options = Some ''bob''
           \<and> password options = Some (join_space [''a'', ''b''])
           \<and> hp' ! opt_headers options
               = removeHeader ([?hs] ! headers exampleRequest) ''Authorization''
           \<and> findHeaderName ([?hs] ! headers exampleRequest) ''Authorization'' = Some k
           \<and> map_of (hp' ! opt_headers options) k = None"
    using basic_with_password_tokens [of exampleRequest "[?hs]" "''BASIC bob  a b''"
        "''BASIC''" "''bob''" "[''a'', ''b'']" nodePlatform exampleSettings]
      h1 h2 h3 h4 z
    by simp
  then obtain options hp' k where
    "prepareOptions nodePlatform exampleRequest exampleSettings [?hs] = (Inr options, hp')"
    "username options = Some ''bob''"
    "password options = Some (join_space [''a'', ''b''])"
    "findHeaderName ([?hs] ! headers exampleRequest) ''Authorization'' = Some k"
    "map_of (hp' ! opt_headers options) k = None"
    by blast
  with f z h2 h3 show ?thesis
    by auto
qed

lemma authorize_without_args:
  assumes "getHeader (hp ! opt_headers opts) ''Authorization'' = Some authorization"
    and "split_ws authorization = scheme # rest"
    and "length rest \<le> 1"
    and "toLowerCase scheme \<noteq> ''basic''"
  shows "authorize P opts hp = (Inr opts, hp)"
proof (cases rest)
  case Nil
  with assms show ?thesis
    by (simp add: authorize_def Let_def)
next
  case (Cons user args)
  with assms(3) have "args = []" by simp
  with Cons assms show ?thesis
    by (simp add: authorize_def Let_def)
qed

lemma authorize_hooks:
  assumes "getHeader (hp ! opt_headers opts) ''Authorization'' = Some authorization"
    and "split_ws authorization = scheme # user # args"
    and "args \<noteq> []"
  shows "toLowerCase scheme = ''digest'' \<Longrightarrow>
           fst (authorize P opts hp)
             = Inr (opts\<lparr>afterResponse := afterResponse opts @ [Digest user (join_space args)]\<rparr>)"
    and "toLowerCase scheme = ''aws'' \<Longrightarrow>
           fst (authorize P opts hp)
             = Inr (opts\<lparr>beforeRequest := beforeRequest opts @ [AwsSignature authorization]\<rparr>)"
    and "toLowerCase scheme = ''cognito'' \<Longrightarrow> awsCognito P authorization = Inr h \<Longrightarrow>
           fst (authorize P opts hp)
             = Inr (opts\<lparr>beforeRequest := beforeRequest opts @ [h]\<rparr>)"
proof -
  from assms(2) have n: "authorization \<noteq> []" by auto
  show "toLowerCase scheme = ''digest'' \<Longrightarrow>
           fst (authorize P opts hp)
             = Inr (opts\<lparr>afterResponse := afterResponse opts @ [Digest user (join_space args)]\<rparr>)"
    using assms n by (simp add: authorize_def Let_def)
  show "toLowerCase scheme = ''aws'' \<Longrightarrow>
           fst (authorize P opts hp)
             = Inr (opts\<lparr>beforeRequest := beforeRequest opts @ [AwsSignature authorization]\<rparr>)"
    using assms n by (simp add: authorize_def Let_def)
  show "toLowerCase scheme = ''cognito'' \<Longrightarrow> awsCognito P authorization = Inr h \<Longrightarrow>
           fst (authorize P opts hp)
             = Inr (opts\<lparr>beforeRequest := beforeRequest opts @ [h]\<rparr>)"
    using assms n by (simp add: authorize_def Let_def)
qed

text \<open>
  Claim C10. When the Authorization value splits on white space into at most two tokens
  and the first is \<open>digest\<close>, \<open>aws\<close> or \<open>cognito\<close> (in any letter case), \<open>prepareOptions\<close>
  succeeds, the cloned header object equals the caller's and still carries the
  Authorization header, both hook lists are empty, and neither username nor password is
  set.
\<close>

theorem hook_schemes_need_a_third_token:
  "headers httpRequest < length hp
     \<and> getHeader (hp ! headers httpRequest) ''Authorization'' = Some authorization
     \<and> split_ws authorization = scheme # rest
     \<and> length rest \<le> 1
     \<and> toLowerCase scheme \<in> set [''digest'', ''aws'', ''cognito'']
   \<longrightarrow> (\<exists>options hp'.
          prepareOptions P httpRequest settings hp = (Inr options, hp')
          \<and> hp' ! opt_headers options = hp ! headers httpRequest
          \<and> getHeader (hp' ! opt_headers options) ''Authorization'' = Some authorization
          \<and> afterResponse options = []
          \<and> beforeRequest options = []
          \<and> username options = None
          \<and> password options = None)"
proof
  assume h: "headers httpRequest < length hp
     \<and> getHeader (hp ! headers httpRequest) ''Authorization'' = Some authorization
     \<and> split_ws authorization = scheme # rest
     \<and> length rest \<le> 1
     \<and> toLowerCase scheme \<in> set [''digest'', ''aws'', ''cognito'']"
  let ?o = "initialOptions httpRequest settings (length hp)"
  let ?hp1 = "hp @ [hp ! headers httpRequest]"
  from h have nb: "toLowerCase scheme \<noteq> ''basic''" by auto
  have g: "getHeader (?hp1 ! opt_headers ?o) ''Authorization'' = Some authorization"
    using h by (simp add: initialOptions_def)
  have "authorize P ?o ?hp1 = (Inr ?o, ?hp1)"
    using g h nb authorize_without_args [of ?hp1 ?o authorization scheme rest P] by blast
  then have "prepareOptions P httpRequest settings hp
      = (Inr (setProxy P (url httpRequest) settings
                (?o\<lparr>certificate := getRequestCertificate P (url httpRequest)\<rparr>)), ?hp1)"
    by (simp add: prepareOptions_def Let_def)
  moreover have "opt_headers (setProxy P (url httpRequest) settings
                (?o\<lparr>certificate := getRequestCertificate P (url httpRequest)\<rparr>)) = length hp"
    by (simp add: setProxy_keeps initialOptions_def)
  moreover have "afterResponse (setProxy P (url httpRequest) settings
                (?o\<lparr>certificate := getRequestCertificate P (url httpRequest)\<rparr>)) = []"
    "beforeRequest (setProxy P (url httpRequest) settings
                (?o\<lparr>certificate := getRequestCertificate P (url httpRequest)\<rparr>)) = []"
    "username (setProxy P (url httpRequest) settings
                (?o\<lparr>certificate := getRequestCertificate P (url httpRequest)\<rparr>)) = None"
    "password (setProxy P (url httpRequest) settings
                (?o\<lparr>certificate := getRequestCertificate P (url httpRequest)\<rparr>)) = None"
    by (simp_all add: setProxy_keeps initialOptions_def)
  ultimately show "\<exists>options hp'.
          prepareOptions P httpRequest settings hp = (Inr options, hp')
          \<and> hp' ! opt_headers options = hp ! headers httpRequest
          \<and> getHeader (hp' ! opt_headers options) ''Authorization'' = Some authorization
          \<and> afterResponse options = []
          \<and> beforeRequest options = []
          \<and> username options = None
          \<and> password options = None"
    using h by simp
qed

theorem hook_schemes_need_a_third_token_witness:
  "getHeader [(''X-Trace'', ''1''), (''AUTHORIZATION'', ''Digest alice'')] ''Authorization''
     = Some ''Digest alice''
   \<and> split_ws ''Digest alice'' = [''Digest'', ''alice'']
   \<and> toLowerCase ''Digest'' = ''digest''
   \<and> (\<exists>options hp'.
         prepareOptions nodePlatform exampleRequest exampleSettings
           [[(''X-Trace'', ''1''), (''AUTHORIZATION'', ''Digest alice'')]] = (Inr options, hp')
         \<and> hp' ! opt_headers options = [(''X-Trace'', ''1''), (''AUTHORIZATION'', ''Digest alice'')]
         \<and> afterResponse options = []
         \<and> beforeRequest options = []
         \<and> username options = None
         \<and> password options = None)"
proof -
  let ?hs = "[(''X-Trace'', ''1''), (''AUTHORIZATION'', ''Digest alice'')]"
  have h1: "headers exampleRequest < length [?hs]"
    by (simp add: exampleRequest_def)
  have z: "[?hs] ! headers exampleRequest = ?hs"
    by (simp add: exampleRequest_def)
  have h2: "getHeader ?hs ''Authorization'' = Some ''Digest alice''"
    by code_simp
  have h3: "split_ws ''Digest alice'' = [''Digest'', ''alice'']"
    by code_simp
  have h4: "toLowerCase ''Digest'' = ''digest''"
    by code_simp
  from hook_schemes_need_a_third_token [of exampleRequest "[?hs]" "''Digest alice''"
      "''Digest''" "[''alice'']" nodePlatform exampleSettings] h1 h2 h3 h4 z
  have "\<exists>options hp'.
          prepareOptions nodePlatform exampleRequest exampleSettings [?hs] = (Inr options, hp')
          \<and> hp' ! opt_headers options = ?hs
          \<and> getHeader (hp' ! opt_headers options) ''Authorization'' = Some ''Digest alice''
          \<and> afterResponse options = []
          \<and> beforeRequest options = []
          \<and> username options = None
          \<and> password options = None"
    by simp
  with h2 h3 h4 show ?thesis
    by blast
qed

text \<open>
  The branch for a single \<open>user:password\<close> token: the username is the text before the
  first colon, the password the text between the first colon and the second, if any.
\<close>

lemma authorize_basic_colon:
  assumes "getHeader (hp ! opt_headers opts) ''Authorization'' = Some authorization"
    and "split_ws authorization = [scheme, user]"
    and "toLowerCase scheme = ''basic''"
    and "CHR '':'' \<in> set user"
  shows "authorize P opts hp =
           (Inr (opts\<lparr>username := Some (takeWhile (\<lambda>c. c \<noteq> CHR '':'') user),
                       password := Some (takeWhile (\<lambda>c. c \<noteq> CHR '':'')
                                          (drop 1 (dropWhile (\<lambda>c. c \<noteq> CHR '':'') user)))\<rparr>),
            removeHeaderAt hp (opt_headers opts) ''Authorization'')"
proof -
  from assms(2) have n: "authorization \<noteq> []" by auto
  obtain ts where ts: "split_char CHR '':'' (drop 1 (dropWhile (\<lambda>c. c \<noteq> CHR '':'') user))
      = takeWhile (\<lambda>c. c \<noteq> CHR '':'') (drop 1 (dropWhile (\<lambda>c. c \<noteq> CHR '':'') user)) # ts"
    using split_char_hd by blast
  have "split_char CHR '':'' user
      = takeWhile (\<lambda>c. c \<noteq> CHR '':'') user
        # takeWhile (\<lambda>c. c \<noteq> CHR '':'') (drop 1 (dropWhile (\<lambda>c. c \<noteq> CHR '':'') user)) # ts"
    using assms(4) ts by (simp add: split_char_with)
  with assms n show ?thesis
    by (simp add: authorize_def Let_def)
qed

text \<open>
  Claim C3, evaluated where the password itself holds a colon: the token
  \<open>alice:se:cret\<close> is cut at every colon and the first two pieces are used, so the
  password is \<open>se\<close> and not the whole remainder \<open>se:cret\<close>.
\<close>

theorem basic_colon_token_second_colon:
  "prepareOptions nodePlatform exampleRequest exampleSettings
      [[(''Authorization'', ''Basic alice:se:cret'')]]
    = (Inr (exampleOptions\<lparr>username := Some ''alice'', password := Some ''se''\<rparr>),
       [[(''Authorization'', ''Basic alice:se:cret'')], []])"
  by code_simp

section \<open>The response consumer: properties\<close>

text \<open>
  When the options can be prepared, \<open>send\<close> consumes the events with them; the lemmas on
  \<open>receive\<close> below hold for any options, so for those of \<open>send\<close> too.
\<close>

lemma send_receive:
  "prepareOptions P httpRequest settings hp = (Inr options, hp1) \<Longrightarrow>
   send P httpRequest settings hp events
     = (Inr (receive P settings httpRequest options hp1 events), hp1)"
  by (simp add: send_def)

lemma receive_snoc:
  "receive P s rq opts hp (evs @ [e]) = onEvent P s rq opts hp (receive P s rq opts hp evs) e"
  by (simp add: receive_def)

lemma receive_response:
  "receive P s rq opts hp [Response m] = onResponse P rq opts hp initialState m"
  by (simp add: receive_def)

lemma onResponse_fields:
  "httpResponse (onResponse P rq opts hp st m) = Some (newHttpResponse P rq opts hp st m)"
  "bodySize (onResponse P rq opts hp st m) = bodySize st"
  "encoding (onResponse P rq opts hp st m) = chooseEncoding m"
  "local_bodyBuffer (onResponse P rq opts hp st m) = []"
  "resolved (onResponse P rq opts hp st m)
     = (essence (newHttpResponse P rq opts hp st m) = Some ''text/event-stream'' \<or> resolved st)"
  "endHandler (onResponse P rq opts hp st m)
     = (essence (newHttpResponse P rq opts hp st m) \<noteq> Some ''text/event-stream'' \<or> endHandler st)"
  by (simp_all add: onResponse_def Let_def)

text \<open>
  The state after the head of a response and any number of chunks, by induction on the
  chunks from the last one.
\<close>

lemma receive_data:
  "\<exists>r. httpResponse (receive P s rq opts hp (Response m # map Data cs)) = Some r
     \<and> res_body r = concat (map (decodeChunk P s (chooseEncoding m)) cs)
     \<and> bodySizeInBytes r = sum_list (map length cs)
     \<and> bodyBuffer r = (if cs = [] then [] else last cs)
     \<and> res_headers r = res_headers (newHttpResponse P rq opts hp initialState m)
     \<and> headersSizeInBytes r = headersSizeInBytes (newHttpResponse P rq opts hp initialState m)
     \<and> bodySize (receive P s rq opts hp (Response m # map Data cs)) = sum_list (map length cs)
     \<and> encoding (receive P s rq opts hp (Response m # map Data cs)) = chooseEncoding m
     \<and> local_bodyBuffer (receive P s rq opts hp (Response m # map Data cs)) = []
     \<and> resolved (receive P s rq opts hp (Response m # map Data cs))
         = (essence (newHttpResponse P rq opts hp initialState m) = Some ''text/event-stream'')
     \<and> endHandler (receive P s rq opts hp (Response m # map Data cs))
         = (essence (newHttpResponse P rq opts hp initialState m) \<noteq> Some ''text/event-stream'')"
proof (induction cs rule: rev_induct)
  case Nil
  show ?case
    by (simp add: receive_response onResponse_fields)
       (simp add: newHttpResponse_def initialState_def)
next
  case (snoc c cs)
  then obtain r where r: "httpResponse (receive P s rq opts hp (Response m # map Data cs)) = Some r"
    and f: "res_body r = concat (map (decodeChunk P s (chooseEncoding m)) cs)"
      "bodySizeInBytes r = sum_list (map length cs)"
      "res_headers r = res_headers (newHttpResponse P rq opts hp initialState m)"
      "headersSizeInBytes r = headersSizeInBytes (newHttpResponse P rq opts hp initialState m)"
      "bodySize (receive P s rq opts hp (Response m # map Data cs)) = sum_list (map length cs)"
      "encoding (receive P s rq opts hp (Response m # map Data cs)) = chooseEncoding m"
      "local_bodyBuffer (receive P s rq opts hp (Response m # map Data cs)) = []"
      "resolved (receive P s rq opts hp (Response m # map Data cs))
         = (essence (newHttpResponse P rq opts hp initialState m) = Some ''text/event-stream'')"
      "endHandler (receive P s rq opts hp (Response m # map Data cs))
         = (essence (newHttpResponse P rq opts hp initialState m) \<noteq> Some ''text/event-stream'')"
    by blast
  have step: "receive P s rq opts hp (Response m # map Data (cs @ [c]))
      = onData P s (receive P s rq opts hp (Response m # map Data cs)) c"
    using receive_snoc [of P s rq opts hp "Response m # map Data cs" "Data c"] by simp
  show ?case
    unfolding step using r f by (simp add: onData_def Let_def)
qed

lemma receive_resolved:
  "resolved (receive P s rq opts hp (Response m # map Data cs))
     = (essence (newHttpResponse P rq opts hp initialState m) = Some ''text/event-stream'')"
  using receive_data [of P s rq opts hp m cs] by blast

lemma receive_end:
  "resolved (receive P s rq opts hp (Response m # map Data cs @ [End]))"
proof -
  have "receive P s rq opts hp (Response m # map Data cs @ [End])
      = onEnd (receive P s rq opts hp (Response m # map Data cs))"
    using receive_snoc [of P s rq opts hp "Response m # map Data cs" End] by simp
  with receive_data [of P s rq opts hp m cs] show ?thesis
    by (auto simp: onEnd_def)
qed

lemma essence_newHttpResponse:
  "essence (newHttpResponse P rq opts hp st m) = essenceOfHeaders (im_headers m) (rawHeaders m)"
  by (simp add: essence_def contentType_def newHttpResponse_def essenceOfHeaders_def)

lemma essence_event_stream:
  "essence (newHttpResponse P rq opts hp st (exampleMessage ''text/event-stream''))
     = Some ''text/event-stream''"
proof -
  have "essenceOfHeaders [(''content-type'', ''text/event-stream'')]
          [''Content-Type'', ''text/event-stream''] = Some ''text/event-stream''"
    by code_simp
  then show ?thesis
    by (simp add: essence_newHttpResponse exampleMessage_def)
qed

lemma essence_json:
  "essence (newHttpResponse P rq opts hp st (exampleMessage ''application/json''))
     = Some ''application/json''"
proof -
  have "essenceOfHeaders [(''content-type'', ''application/json'')]
          [''Content-Type'', ''application/json''] = Some ''application/json''"
    by code_simp
  then show ?thesis
    by (simp add: essence_newHttpResponse exampleMessage_def)
qed

lemma mime_essence_stripParameters:
  "mime_essence (MimeUtility_parse ct) = stripParameters ct"
proof -
  obtain ts where "split_char CHR '';'' ct = takeWhile (\<lambda>c. c \<noteq> CHR '';'') ct # ts"
    using split_char_hd by blast
  then show ?thesis
    by (simp add: MimeUtility_parse_def stripParameters_def Let_def)
qed

lemma stripParameters_Nil: "stripParameters [] = []"
  by (simp add: stripParameters_def trim_def)

lemma essence_stripped:
  "(essence (newHttpResponse P rq opts hp st m) = Some ''text/event-stream'')
     = (case getHeader (normalizeHeaderNames (im_headers m) (rawHeaders m)) ''content-type'' of
          None \<Rightarrow> False
        | Some ct \<Rightarrow> stripParameters ct = ''text/event-stream'')"
  by (auto simp: essence_newHttpResponse essenceOfHeaders_def getContentType_def
        mime_essence_stripParameters stripParameters_Nil split: option.split)

lemma essence_event_stream_charset:
  "essence (newHttpResponse P rq opts hp st (exampleMessage ''text/event-stream; charset=utf-8''))
     = Some ''text/event-stream''"
proof -
  have "essenceOfHeaders [(''content-type'', ''text/event-stream; charset=utf-8'')]
          [''Content-Type'', ''text/event-stream; charset=utf-8''] = Some ''text/event-stream''"
    by code_simp
  then show ?thesis
    by (simp add: essence_newHttpResponse exampleMessage_def)
qed

lemma essence_json_charset:
  "essence (newHttpResponse P rq opts hp st (exampleMessage ''application/json; charset=utf-8''))
     = Some ''application/json''"
proof -
  have "essenceOfHeaders [(''content-type'', ''application/json; charset=utf-8'')]
          [''Content-Type'', ''application/json; charset=utf-8''] = Some ''application/json''"
    by code_simp
  then show ?thesis
    by (simp add: essence_newHttpResponse exampleMessage_def)
qed

text \<open>
  Claim C6. After the head of a response and any chunks, but before \<open>end\<close>, the
  completion signal of \<open>send\<close> is resolved exactly when the content-type of the
  response, with its parameters stripped, is \<open>text/event-stream\<close>, which is when the
  essence of the response is that media type; once \<open>end\<close> has fired it is resolved in
  every case. With \<open>content-type: text/event-stream\<close>, also when a charset parameter
  follows, it is resolved before \<open>end\<close>; with \<open>content-type: application/json\<close>, with
  or without a parameter, only at \<open>end\<close>.
\<close>

theorem resolves_early_iff_event_stream:
  "resolved (receive P settings httpRequest options hp (Response m # map Data cs))
     = (case getHeader (normalizeHeaderNames (im_headers m) (rawHeaders m)) ''content-type'' of
          None \<Rightarrow> False
        | Some ct \<Rightarrow> stripParameters ct = ''text/event-stream'')
   \<and> resolved (receive P settings httpRequest options hp (Response m # map Data cs))
       = (essence (newHttpResponse P httpRequest options hp initialState m)
            = Some ''text/event-stream'')
   \<and> resolved (receive P settings httpRequest options hp (Response m # map Data cs @ [End]))
   \<and> resolved (receive P settings httpRequest options hp
        (Response (exampleMessage ''text/event-stream'') # map Data cs))
   \<and> resolved (receive P settings httpRequest options hp
        (Response (exampleMessage ''text/event-stream; charset=utf-8'') # map Data cs))
   \<and> \<not> resolved (receive P settings httpRequest options hp
        (Response (exampleMessage ''application/json'') # map Data cs))
   \<and> \<not> resolved (receive P settings httpRequest options hp
        (Response (exampleMessage ''application/json; charset=utf-8'') # map Data cs))
   \<and> resolved (receive P settings httpRequest options hp
        (Response (exampleMessage ''application/json'') # map Data cs @ [End]))"
proof (intro conjI)
  show "resolved (receive P settings httpRequest options hp (Response m # map Data cs))
     = (case getHeader (normalizeHeaderNames (im_headers m) (rawHeaders m)) ''content-type'' of
          None \<Rightarrow> False
        | Some ct \<Rightarrow> stripParameters ct = ''text/event-stream'')"
    by (simp only: receive_resolved essence_stripped)
qed (simp_all add: receive_resolved receive_end essence_event_stream essence_json
       essence_event_stream_charset essence_json_charset)

theorem resolves_early_iff_event_stream_witness:
  "resolved (receive nodePlatform exampleSettings exampleRequest exampleOptions [[]]
      [Response (exampleMessage ''text/event-stream; charset=utf-8''), Data [0x64, 0x61]])
   \<and> \<not> resolved (receive nodePlatform exampleSettings exampleRequest exampleOptions [[]]
      [Response (exampleMessage ''application/json; charset=utf-8''), Data [0x7B], Data [0x7D]])
   \<and> resolved (receive nodePlatform exampleSettings exampleRequest exampleOptions [[]]
      [Response (exampleMessage ''application/json''), Data [0x7B], Data [0x7D], End])"
proof -
  have a: "resolved (receive nodePlatform exampleSettings exampleRequest exampleOptions [[]]
      (Response (exampleMessage ''text/event-stream; charset=utf-8'') # map Data [[0x64, 0x61]]))"
    using resolves_early_iff_event_stream [of nodePlatform exampleSettings exampleRequest
      exampleOptions "[[]]" "exampleMessage ''application/json''" "[[0x64, 0x61]]"]
    by blast
  have b: "\<not> resolved (receive nodePlatform exampleSettings exampleRequest exampleOptions [[]]
      (Response (exampleMessage ''application/json; charset=utf-8'') # map Data [[0x7B], [0x7D]]))"
    and c: "resolved (receive nodePlatform exampleSettings exampleRequest exampleOptions [[]]
      (Response (exampleMessage ''application/json'') # map Data [[0x7B], [0x7D]] @ [End]))"
    using resolves_early_iff_event_stream [of nodePlatform exampleSettings exampleRequest
      exampleOptions "[[]]" "exampleMessage ''application/json''" "[[0x7B], [0x7D]]"]
    by blast+
  from a b c show ?thesis by simp
qed

lemma utf8_caf: "utf8_decode [0x63, 0x61, 0x66] = [0x63, 0x61, 0x66]"
  by simp

lemma utf8_e_acute: "utf8_decode [0xC3, 0xA9] = [0xE9]"
  by (simp add: followedBy_def isContinuation_def codePoint_def codeUnits_def)

lemma chooseEncoding_example:
  "chooseEncoding (exampleMessage ''text/plain; charset=utf8'') = ''utf8''"
  by code_simp

lemma decodeChunk_example:
  "decodeChunk nodePlatform exampleSettings ''utf8'' chunk = utf8_decode chunk"
proof -
  have "toLowerCase ''utf8'' \<in> set [''utf8'', ''utf-8'']" by code_simp
  then show ?thesis
    by (simp add: decodeChunk_def nodePlatform_def exampleSettings_def)
qed

text \<open>
  Claim C8. Each chunk appends its decoded text to the body of the response and leaves
  the text before it as it was; \<open>bodySizeInBytes\<close> is the number of bytes of the chunks
  handled so far, so it never decreases. With the charset \<open>utf8\<close>, the chunk \<open>caf\<close> gives
  the body \<open>caf\<close> and 3 bytes; the two bytes \<open>C3 A9\<close> of U+00E9 after it give the body
  \<open>caf\<close> followed by the code unit \<open>00E9\<close>, and 5 bytes.
\<close>

theorem body_append_only_size_cumulative:
  "(\<exists>r r'.
      httpResponse (receive P settings httpRequest options hp (Response m # map Data cs)) = Some r
      \<and> httpResponse (receive P settings httpRequest options hp
                        (Response m # map Data (cs @ [c]))) = Some r'
      \<and> res_body r' = res_body r @ decodeChunk P settings (chooseEncoding m) c
      \<and> bodySizeInBytes r = sum_list (map length cs)
      \<and> bodySizeInBytes r' = sum_list (map length cs) + length c
      \<and> bodySizeInBytes r \<le> bodySizeInBytes r')
   \<and> map_option (\<lambda>r. (res_body r, bodySizeInBytes r))
        (httpResponse (receive nodePlatform exampleSettings exampleRequest exampleOptions [[]]
           [Response (exampleMessage ''text/plain; charset=utf8''), Data [0x63, 0x61, 0x66]]))
       = Some ([0x63, 0x61, 0x66], 3)
   \<and> map_option (\<lambda>r. (res_body r, bodySizeInBytes r))
        (httpResponse (receive nodePlatform exampleSettings exampleRequest exampleOptions [[]]
           [Response (exampleMessage ''text/plain; charset=utf8''), Data [0x63, 0x61, 0x66],
            Data [0xC3, 0xA9]]))
       = Some ([0x63, 0x61, 0x66, 0xE9], 5)"
proof (intro conjI)
  from receive_data [of P settings httpRequest options hp m cs]
    receive_data [of P settings httpRequest options hp m "cs @ [c]"]
  show "\<exists>r r'.
      httpResponse (receive P settings httpRequest options hp (Response m # map Data cs)) = Some r
      \<and> httpResponse (receive P settings httpRequest options hp
                        (Response m # map Data (cs @ [c]))) = Some r'
      \<and> res_body r' = res_body r @ decodeChunk P settings (chooseEncoding m) c
      \<and> bodySizeInBytes r = sum_list (map length cs)
      \<and> bodySizeInBytes r' = sum_list (map length cs) + length c
      \<and> bodySizeInBytes r \<le> bodySizeInBytes r'"
    by auto
next
  from receive_data [of nodePlatform exampleSettings exampleRequest exampleOptions "[[]]"
      "exampleMessage ''text/plain; charset=utf8''" "[[0x63, 0x61, 0x66]]"]
  show "map_option (\<lambda>r. (res_body r, bodySizeInBytes r))
        (httpResponse (receive nodePlatform exampleSettings exampleRequest exampleOptions [[]]
           [Response (exampleMessage ''text/plain; charset=utf8''), Data [0x63, 0x61, 0x66]]))
       = Some ([0x63, 0x61, 0x66], 3)"
    by (auto simp del: utf8_decode.simps
          simp add: chooseEncoding_example decodeChunk_example utf8_caf)
next
  from receive_data [of nodePlatform exampleSettings exampleRequest exampleOptions "[[]]"
      "exampleMessage ''text/plain; charset=utf8''" "[[0x63, 0x61, 0x66], [0xC3, 0xA9]]"]
  show "map_option (\<lambda>r. (res_body r, bodySizeInBytes r))
        (httpResponse (receive nodePlatform exampleSettings exampleRequest exampleOptions [[]]
           [Response (exampleMessage ''text/plain; charset=utf8''), Data [0x63, 0x61, 0x66],
            Data [0xC3, 0xA9]]))
       = Some ([0x63, 0x61, 0x66, 0xE9], 5)"
    by (auto simp del: utf8_decode.simps
          simp add: chooseEncoding_example decodeChunk_example utf8_caf utf8_e_acute)
qed

theorem body_append_only_size_cumulative_witness:
  "\<exists>r r'.
      httpResponse (receive nodePlatform exampleSettings exampleRequest exampleOptions [[]]
        [Response (exampleMessage ''text/plain; charset=utf8''), Data [0x63, 0x61, 0x66]]) = Some r
      \<and> httpResponse (receive nodePlatform exampleSettings exampleRequest exampleOptions [[]]
        [Response (exampleMessage ''text/plain; charset=utf8''), Data [0x63, 0x61, 0x66],
         Data [0xC3, 0xA9]]) = Some r'
      \<and> res_body r' = res_body r @ [0xE9]
      \<and> bodySizeInBytes r = 3
      \<and> bodySizeInBytes r' = 5"
  using body_append_only_size_cumulative [of nodePlatform exampleSettings exampleRequest
      exampleOptions "[[]]" "exampleMessage ''text/plain; charset=utf8''"
      "[[0x63, 0x61, 0x66]]" "[0xC3, 0xA9]"]
  by (auto simp del: utf8_decode.simps
        simp add: chooseEncoding_example decodeChunk_example utf8_e_acute)

text \<open>
  Claim C1, evaluated on two chunks: after the second chunk \<open>bodyBuffer\<close> holds that
  chunk alone, not the first chunk followed by the second. The callback concatenates
  the chunk to the local \<open>bodyBuffer\<close> of the \<open>response\<close> handler, which stays empty.
\<close>

theorem bodyBuffer_holds_last_chunk_only:
  "map_option bodyBuffer
     (httpResponse (receive nodePlatform exampleSettings exampleRequest exampleOptions [[]]
        [Response (exampleMessage ''text/plain''), Data [0x61, 0x62], Data [0x63]]))
     = Some [0x63]"
  using receive_data [of nodePlatform exampleSettings exampleRequest exampleOptions "[[]]"
      "exampleMessage ''text/plain''" "[[0x61, 0x62], [0x63]]"]
  by auto

lemma receive_headersSize:
  "map_option headersSizeInBytes (httpResponse (receive P s rq opts hp [Response m]))
     = Some (of_nat (sum_list (map length (rawHeaders m))) + of_nat (length (rawHeaders m)) / 2)"
  by (simp add: receive_response onResponse_fields newHttpResponse_def addHeadersSize_def
        initialState_def)

lemma length_rawPairs: "length (rawPairs hs) = 2 * length hs"
  by (induction hs) (auto simp: rawPairs_def)

lemma sum_length_rawPairs:
  "sum_list (map length (rawPairs hs)) = sum_list (map (\<lambda>(n, v). length n + length v) hs)"
  by (induction hs) (auto simp: rawPairs_def)

lemma headerCount_rawPairs: "headerCount (rawPairs hs) = length hs"
  by (simp add: headerCount_def length_rawPairs)

text \<open>
  Claim C2 as stated fails: for the single header \<open>Content-Type: text/plain\<close> the
  lengths sum to 22 and there is one header, so the claim gives 22 + 1/2, while the
  code stores 23.
\<close>

theorem headersSize_half_header_count_counterexample:
  "map_option headersSizeInBytes
     (httpResponse (receive nodePlatform exampleSettings exampleRequest exampleOptions [[]]
        [Response (exampleMessage ''text/plain'')])) = Some 23
   \<and> of_nat (sum_list (map length (rawHeaders (exampleMessage ''text/plain''))))
       + of_nat (headerCount (rawHeaders (exampleMessage ''text/plain''))) / 2 = (45 / 2 :: rat)
   \<and> map_option headersSizeInBytes
       (httpResponse (receive nodePlatform exampleSettings exampleRequest exampleOptions [[]]
          [Response (exampleMessage ''text/plain'')]))
       \<noteq> Some (of_nat (sum_list (map length (rawHeaders (exampleMessage ''text/plain''))))
                + of_nat (headerCount (rawHeaders (exampleMessage ''text/plain''))) / 2)"
  by (simp add: receive_headersSize exampleMessage_def headerCount_def)

text \<open>
  Claim C2, amended. On the head of a response \<open>headersSizeInBytes\<close> is the sum of the
  lengths of the raw header names and values plus half the number of entries of the raw
  header list. That list holds a name and a value for each header, so the second part
  is the number of headers, not half of it.
\<close>

theorem headersSize_sum_plus_header_count:
  "map_option headersSizeInBytes
     (httpResponse (receive P settings httpRequest options hp [Response m]))
     = Some (of_nat (sum_list (map length (rawHeaders m)))
              + of_nat (length (rawHeaders m)) / 2)
   \<and> map_option headersSizeInBytes
       (httpResponse (receive P settings httpRequest options hp
          [Response (m\<lparr>rawHeaders := rawPairs hs\<rparr>)]))
       = Some (of_nat (sum_list (map (\<lambda>(n, v). length n + length v) hs))
                + of_nat (headerCount (rawPairs hs)))
   \<and> headerCount (rawPairs hs) = length hs"
  by (simp add: receive_headersSize length_rawPairs sum_length_rawPairs headerCount_rawPairs)

theorem headersSize_sum_plus_header_count_witness:
  "map_option headersSizeInBytes
     (httpResponse (receive nodePlatform exampleSettings exampleRequest exampleOptions [[]]
        [Response (exampleMessage ''text/plain'')])) = Some (22 + 1)
   \<and> rawHeaders (exampleMessage ''text/plain'') = rawPairs [(''Content-Type'', ''text/plain'')]"
proof -
  have e: "(exampleMessage ''text/plain'')\<lparr>rawHeaders := rawPairs [(''Content-Type'', ''text/plain'')]\<rparr>
             = exampleMessage ''text/plain''"
    by (simp add: exampleMessage_def rawPairs_def)
  show ?thesis
    using headersSize_sum_plus_header_count [of nodePlatform exampleSettings exampleRequest
        exampleOptions "[[]]" "exampleMessage ''text/plain''"
        "[(''Content-Type'', ''text/plain'')]"]
    by (simp add: e) (simp add: exampleMessage_def rawPairs_def)
qed

section \<open>Header-name case normalisation: properties\<close>

text \<open>
  For a key that is not the name of a member of \<open>Object.prototype\<close> the dictionary holds
  the first raw name that matches it, and the key is renamed to it.
\<close>

lemma headersDic_foldl:
  assumes "k \<notin> fst ` set objectPrototype"
  shows "map_of (foldl headersDic_step acc raw) k =
           (case map_of acc k of
              Some r \<Rightarrow> Some r
            | None \<Rightarrow> find (\<lambda>r. toLowerCase r = k) raw)"
proof (induction raw arbitrary: acc)
  case Nil
  show ?case by (simp split: option.split)
next
  case (Cons cur raw)
  show ?case
  proof (cases "toLowerCase cur = k")
    case True
    show ?thesis
    proof (cases "map_of acc k")
      case None
      then have "k \<notin> fst ` set acc" by (simp add: map_of_eq_None_iff)
      with assms True have "headersDic_step acc cur = AList.update k cur acc"
        by (simp add: headersDic_step_def js_in_def)
      then show ?thesis using None True
        by (simp add: Cons.IH update_conv')
    next
      case (Some r)
      then have "k \<in> fst ` set acc"
        using map_of_eq_None_iff [of acc k] by auto
      with True have "headersDic_step acc cur = acc"
        by (simp add: headersDic_step_def js_in_def)
      then show ?thesis using Some by (simp add: Cons.IH)
    qed
  next
    case False
    then have "map_of (headersDic_step acc cur) k = map_of acc k"
      by (simp add: headersDic_step_def update_conv')
    with False show ?thesis
      by (simp add: Cons.IH split: option.split)
  qed
qed

lemma headersDic_lookup:
  "k \<notin> fst ` set objectPrototype \<Longrightarrow>
   map_of (headersDic raw) k = find (\<lambda>r. toLowerCase r = k) raw"
  by (simp add: headersDic_def headersDic_foldl)

lemma adjustedHeaderName_ordinary:
  assumes "k \<notin> fst ` set objectPrototype"
  shows "adjustedHeaderName (headersDic raw) k = firstRawName raw k"
proof (cases "find (\<lambda>r. toLowerCase r = k) raw")
  case None
  moreover from assms have "map_of objectPrototype k = None"
    by (simp add: map_of_eq_None_iff)
  ultimately show ?thesis using assms
    by (simp add: adjustedHeaderName_def firstRawName_def headersDic_lookup)
next
  case (Some r)
  then have "toLowerCase r = k"
    by (auto simp: find_Some_iff)
  then have "r = [] \<Longrightarrow> k = r"
    by (simp add: toLowerCase_def)
  with Some assms show ?thesis
    by (auto simp: adjustedHeaderName_def firstRawName_def headersDic_lookup)
qed

lemma foldl_update_map_of:
  "map_of (foldl (\<lambda>adj (h, v). AList.update (f h) v adj) acc hs)
     = map_of acc ++ map_of (rev (map (\<lambda>(h, v). (f h, v)) hs))"
proof (induction hs arbitrary: acc)
  case Nil
  show ?case by simp
next
  case (Cons p hs)
  obtain h w where p: "p = (h, w)" by (cases p)
  have "map_of (AList.update (f h) w acc) ++ map_of (rev (map (\<lambda>(h, v). (f h, v)) hs))
      = map_of acc ++ ([f h \<mapsto> w] ++ map_of (rev (map (\<lambda>(h, v). (f h, v)) hs)))"
    by (simp add: update_conv' map_add_assoc [symmetric])
  then show ?case
    by (simp add: p Cons.IH)
qed

lemma normalizeHeaderNames_map_of:
  "map_of (normalizeHeaderNames hs raw)
     = map_of (rev (map (\<lambda>(h, v). (adjustedHeaderName (headersDic raw) h, v)) hs))"
  by (simp add: normalizeHeaderNames_def Let_def foldl_update_map_of)

lemma normalizeHeaderNames_keys:
  "fst ` set (normalizeHeaderNames hs raw)
     = adjustedHeaderName (headersDic raw) ` fst ` set hs"
proof -
  have "fst ` set (normalizeHeaderNames hs raw) = dom (map_of (normalizeHeaderNames hs raw))"
    by (simp add: dom_map_of_conv_image_fst)
  also have "\<dots> = fst ` set (rev (map (\<lambda>(h, v). (adjustedHeaderName (headersDic raw) h, v)) hs))"
    by (simp only: normalizeHeaderNames_map_of dom_map_of_conv_image_fst)
  also have "\<dots> = adjustedHeaderName (headersDic raw) ` fst ` set hs"
    by (force simp: image_iff)
  finally show ?thesis .
qed

lemma normalizeHeaderNames_value:
  assumes "distinct (map fst hs)"
    and "inj_on (adjustedHeaderName (headersDic raw)) (fst ` set hs)"
    and "(k, v) \<in> set hs"
  shows "map_of (normalizeHeaderNames hs raw) (adjustedHeaderName (headersDic raw) k) = Some v"
proof -
  let ?f = "adjustedHeaderName (headersDic raw)"
  let ?g = "rev (map (\<lambda>(h, v). (?f h, v)) hs)"
  have "map fst ?g = rev (map ?f (map fst hs))"
    by (simp add: rev_map case_prod_beta comp_def)
  moreover have "distinct (map ?f (map fst hs))"
    using assms(1,2) by (subst distinct_map) simp
  ultimately have "distinct (map fst ?g)"
    by simp
  moreover have "(?f k, v) \<in> set ?g"
    using assms(3) by force
  ultimately have "map_of ?g (?f k) = Some v"
    by (rule map_of_is_SomeI)
  then show ?thesis
    by (simp add: normalizeHeaderNames_map_of)
qed

lemma normalizeHeaderNames_ordinary_keys:
  assumes "fst ` set hs \<inter> fst ` set objectPrototype = {}"
  shows "fst ` set (normalizeHeaderNames hs raw) = firstRawName raw ` fst ` set hs"
proof -
  have "adjustedHeaderName (headersDic raw) k = firstRawName raw k" if "k \<in> fst ` set hs" for k
    using that assms by (intro adjustedHeaderName_ordinary) blast
  then show ?thesis
    by (simp add: normalizeHeaderNames_keys cong: image_cong)
qed

lemma normalizeHeaderNames_example:
  "normalizeHeaderNames [(''content-type'', ''a''), (''x-foo'', ''b'')]
     [''Content-Type'', ''X-Foo'']
     = [(''Content-Type'', ''a''), (''X-Foo'', ''b'')]"
  by code_simp

text \<open>
  Claim C9, evaluated on a header named \<open>Constructor\<close>. The dictionary of raw names
  starts as \<open>{}\<close>, and \<open>"constructor" in {}\<close> holds through \<open>Object.prototype\<close>, so the raw
  name is not recorded; the later read \<open>headersDic["constructor"]\<close> yields the inherited
  function, which becomes the key. The key is neither the raw name \<open>Constructor\<close> nor
  the unchanged key \<open>constructor\<close>.
\<close>

theorem normalizeHeaderNames_inherited_name:
  "normalizeHeaderNames [(''constructor'', ''x''), (''x-foo'', ''b'')]
     [''Constructor'', ''X-Foo'']
     = [(''function Object() { [native code] }'', ''x''), (''X-Foo'', ''b'')]"
  by code_simp

end
